theory Spec2Isabelle
  imports Main "HOL-Library.Word"
begin

section \<open>Shared vocabulary\<close>

text \<open>
  JavaScript objects have identity and are mutated in place, so every object the two
  source files mutate lives in a store indexed by a reference. Objects of collaborators
  that the code only passes on (geometry, GPU program, matrix, texture source, bind
  group, container, renderer) are represented by their reference alone.
\<close>

type_synonym ref = nat

datatype error = TypeError | ConfigurationError

datatype outcome = Returned | Threw error


section \<open>GpuGraphicsAdaptor (src/scene/graphics/gpu/GpuGraphicsAdaptor.ts)\<close>

subsection \<open>Data\<close>

text \<open>
  The dictionary \<open>shader.resources.localUniforms.uniforms\<close>, at the four names the
  source uses: \<open>color\<close> and \<open>transformMatrix\<close>, under which \<open>init\<close> makes the
  uniforms, and \<open>uTransformMatrix\<close> and \<open>uColor\<close>, which \<open>execute\<close> writes and
  reads. The dictionary is untyped in the source, so any entry may be undefined
  (\<open>None\<close>). \<open>'f\<close> is the element type of a \<open>Float32Array\<close>.
\<close>

record 'f LocalUniforms =
  color :: "'f list option"
  transformMatrix :: "ref option"
  uTransformMatrix :: "ref option"
  uColor :: "'f list option"

text \<open>
  A \<open>Shader\<close>: its GPU program, the resource \<open>resources.localUniforms\<close> (undefined for
  a custom shader that does not declare it) and the bind groups by slot.
\<close>

record 'f Shader =
  gpuProgram :: ref
  localUniforms :: "'f LocalUniforms option"
  groups :: "nat \<Rightarrow> ref option"

text \<open>
  A \<open>Batch\<close>; \<open>size_b\<close> is the source's \<open>size\<close>, \<open>textures\<close> is the pair
  \<open>(textures.textures, textures.count)\<close>.
\<close>

record Batch =
  start :: nat
  size_b :: nat
  textures :: "ref list \<times> nat"
  bindGroup :: "ref option"
  gpuBindGroup :: "ref option"

record GraphicsContext =
  uid :: nat
  customShader :: "ref option"

record GpuGraphicsContext =
  batches :: "ref list"

text \<open>
  The result of \<open>getContextRenderData\<close>, with the instruction set
  \<open>{instructions, instructionSize}\<close> flattened into it. \<open>instructions\<close> holds
  references to \<open>Batch\<close> objects.
\<close>

record GraphicsContextRenderData =
  geometry :: ref
  instructions :: "ref list"
  instructionSize :: nat

text \<open>\<open>view_context\<close> is \<open>renderable.view.context\<close>.\<close>

record Renderable =
  view_context :: GraphicsContext
  layerBlendMode :: nat
  layerTransform :: ref
  layerColor :: "32 word"

text \<open>
  Every call that \<open>execute\<close> and \<open>destroy\<close> make on a collaborator, in the order
  made. \<open>SetPipelineFromGeometryProgramAndState\<close> records the blend mode of the
  pipe state it is handed.
\<close>

datatype 'f event =
    SetPipelineFromGeometryProgramAndState ref ref nat
  | SetGeometry ref
  | SetBindGroup nat "ref option" ref
  | GetUniformBindGroup "'f LocalUniforms" bool
  | GetTextureBatchBindGroup "ref list" nat
  | GetBindGroup ref ref nat
  | DrawIndexed nat nat nat
  | ShaderDestroy ref bool

text \<open>
  The collaborators, none of which is part of the two source files; they are
  parameters. The three that hand out bind groups may allocate or consult a cache, so
  their result may depend on the calls made so far as well as on their arguments.
  \<open>color32BitToUniform\<close> writes the channels into the array it is handed; the
  parameter maps the array to what the call leaves in it.
\<close>

record 'f Collaborators =
  getGpuContext :: "GraphicsContext \<Rightarrow> GpuGraphicsContext"
  getContextRenderData :: "GraphicsContext \<Rightarrow> GraphicsContextRenderData"
  globalUniforms_bindGroup :: ref
  getUniformBindGroup :: "'f event list \<Rightarrow> 'f LocalUniforms \<Rightarrow> bool \<Rightarrow> ref"
  getTextureBatchBindGroup :: "'f event list \<Rightarrow> ref list \<Rightarrow> nat \<Rightarrow> ref"
  getBindGroup :: "'f event list \<Rightarrow> ref \<Rightarrow> ref \<Rightarrow> nat \<Rightarrow> ref"
  color32BitToUniform :: "32 word \<Rightarrow> 'f list \<Rightarrow> nat \<Rightarrow> 'f list"

text \<open>
  The mutable state: the adaptor's \<open>_shader\<close> field, the stores of \<open>Shader\<close> and
  \<open>Batch\<close> objects, \<open>graphicsPipe.state.blendMode\<close>, and the calls made so far.
\<close>

record 'f world =
  this_shader :: "ref option"
  shaders :: "ref \<Rightarrow> 'f Shader"
  batchHeap :: "ref \<Rightarrow> Batch"
  state_blendMode :: nat
  trace :: "'f event list"

subsection \<open>init\<close>

text \<open>
  \<open>init()\<close>, lines 33 to 56. The objects it makes (the \<open>Matrix\<close>, the compiled
  program, the \<open>BindGroup\<close>, the \<open>Shader\<close>) are known by their references, which are
  parameters. The uniform group is made with the two entries \<open>color\<close> and
  \<open>transformMatrix\<close>; the entries \<open>uColor\<close> and \<open>uTransformMatrix\<close> that
  \<open>execute\<close> uses are not made. The group is the shader's resource
  \<open>localUniforms\<close>, in the bind group at slot 2.
\<close>

definition init :: "ref \<Rightarrow> ref \<Rightarrow> ref \<Rightarrow> ref \<Rightarrow> ('f::one) world \<Rightarrow> 'f world" where
  "init matrix program bg s w =
     (let localUniforms0 =
            \<lparr>color = Some [1, 1, 1, 1], transformMatrix = Some matrix,
             uTransformMatrix = None, uColor = None\<rparr>
      in w\<lparr>shaders := (shaders w)
               (s := \<lparr>gpuProgram = program, localUniforms = Some localUniforms0,
                      groups = (\<lambda>k. if k = 2 then Some bg else None)\<rparr>),
            this_shader := Some s\<rparr>)"

subsection \<open>execute\<close>

text \<open>
  One pass of the body of the \<open>for\<close> loop, for the batch object at reference \<open>r\<close>
  and the shader object at reference \<open>sh\<close>.
\<close>

definition execute_batch :: "'f Collaborators \<Rightarrow> ref \<Rightarrow> ref \<Rightarrow> 'f world \<Rightarrow> 'f world" where
  "execute_batch env sh r w =
     (let w1 = w\<lparr>shaders := (shaders w)
                   (sh := (shaders w sh)\<lparr>groups := (groups (shaders w sh))
                                                    (1 := bindGroup (batchHeap w r))\<rparr>)\<rparr>;
          prog = gpuProgram (shaders w1 sh);
          w2 = (if gpuBindGroup (batchHeap w1 r) = None
                then
                  (let textureBatch = textures (batchHeap w1 r);
                       bg = getTextureBatchBindGroup env (trace w1) (fst textureBatch) (snd textureBatch);
                       wa = w1\<lparr>batchHeap := (batchHeap w1)(r := (batchHeap w1 r)\<lparr>bindGroup := Some bg\<rparr>),
                               trace := trace w1 @ [GetTextureBatchBindGroup (fst textureBatch) (snd textureBatch)]\<rparr>;
                       gbg = getBindGroup env (trace wa) bg prog 1
                   in wa\<lparr>batchHeap := (batchHeap wa)(r := (batchHeap wa r)\<lparr>gpuBindGroup := Some gbg\<rparr>),
                          trace := trace wa @ [GetBindGroup bg prog 1]\<rparr>)
                else w1)
      in w2\<lparr>trace := trace w2 @
               [SetBindGroup 1 (bindGroup (batchHeap w2 r)) prog,
                DrawIndexed (size_b (batchHeap w2 r)) 1 (start (batchHeap w2 r))]\<rparr>)"

text \<open>
  The loop \<open>for (let i = 0; i < instructionSize; i++)\<close> from index \<open>i\<close> on. Reading
  \<open>batches[i]\<close> past the end of the array gives undefined, and \<open>batch.bindGroup\<close>
  then throws.
\<close>

function execute_loop ::
  "'f Collaborators \<Rightarrow> ref \<Rightarrow> ref list \<Rightarrow> nat \<Rightarrow> nat \<Rightarrow> 'f world \<Rightarrow> outcome \<times> 'f world" where
  "execute_loop env sh bs n i w =
     (if i < n
      then (if i < length bs
            then execute_loop env sh bs n (Suc i) (execute_batch env sh (bs ! i) w)
            else (Threw TypeError, w))
      else (Returned, w))"
  by pat_completeness auto
termination
  by (relation "measure (\<lambda>(env, sh, bs, n, i, w). n - i)") auto

declare execute_loop.simps [simp del]

text \<open>
  \<open>a || b\<close> on two object references: \<open>a\<close> when it is an object, \<open>b\<close> when
  \<open>a\<close> is null or undefined.
\<close>

definition js_or :: "ref option \<Rightarrow> ref option \<Rightarrow> ref option" where
  "js_or a b = (case a of Some x \<Rightarrow> Some x | None \<Rightarrow> b)"

text \<open>
  Line 77, \<open>shader.resources.localUniforms.uniforms.uTransformMatrix =
  renderable.layerTransform\<close>, for the shader object at \<open>sh\<close> whose
  \<open>resources.localUniforms\<close> is \<open>lu\<close>.
\<close>

definition writeTransform :: "Renderable \<Rightarrow> ref \<Rightarrow> 'f LocalUniforms \<Rightarrow> 'f world \<Rightarrow> 'f world" where
  "writeTransform renderable sh lu w1 =
     w1\<lparr>shaders := (shaders w1)
            (sh := (shaders w1 sh)
                     \<lparr>localUniforms := Some (lu\<lparr>uTransformMatrix := Some (layerTransform renderable)\<rparr>)\<rparr>)\<rparr>"

text \<open>
  Lines 77 to 105 of the source, for the shader object at \<open>sh\<close> whose
  \<open>resources.localUniforms\<close> is \<open>lu\<close> and whose \<open>uColor\<close> is the array \<open>out\<close>:
  write the transform and the colour into the local uniforms, set pipeline and geometry,
  bind the global uniforms at slot 0, ask the uniform batch for the bind group of the
  local uniforms and bind it at slot 2.
\<close>

definition execute_setup ::
  "'f Collaborators \<Rightarrow> Renderable \<Rightarrow> GraphicsContextRenderData \<Rightarrow> ref \<Rightarrow> 'f LocalUniforms \<Rightarrow>
   'f list \<Rightarrow> 'f world \<Rightarrow> 'f world" where
  "execute_setup env renderable rd sh lu out w1 =
     (let w2 = writeTransform renderable sh lu w1;
          lu2 = lu\<lparr>uTransformMatrix := Some (layerTransform renderable),
                   uColor := Some (color32BitToUniform env (layerColor renderable) out 0)\<rparr>;
          w3 = w2\<lparr>shaders := (shaders w2)(sh := (shaders w2 sh)\<lparr>localUniforms := Some lu2\<rparr>)\<rparr>;
          prog = gpuProgram (shaders w3 sh);
          w4 = w3\<lparr>trace := trace w3 @
                 [SetPipelineFromGeometryProgramAndState (geometry rd) prog (state_blendMode w3),
                  SetGeometry (geometry rd),
                  SetBindGroup 0 (Some (globalUniforms_bindGroup env)) prog]\<rparr>;
          localBindGroup = getUniformBindGroup env (trace w4) lu2 True
      in w4\<lparr>trace := trace w4 @
              [GetUniformBindGroup lu2 True,
               SetBindGroup 2 (Some localBindGroup) prog]\<rparr>)"

text \<open>
  \<open>execute(graphicsPipe, renderable)\<close>. Three reads can fail, all after the blend mode
  has been written: \<open>shader.resources\<close> of a null shader (line 75) and \<open>.uniforms\<close> of
  an undefined \<open>localUniforms\<close> (line 77) throw; and when \<open>uniforms.uColor\<close> is
  undefined, \<open>color32BitToUniform\<close> (line 79) is handed undefined as the array to write
  into, and its first write throws. By then line 77 has written the transform.
\<close>

definition execute :: "'f Collaborators \<Rightarrow> Renderable \<Rightarrow> 'f world \<Rightarrow> outcome \<times> 'f world" where
  "execute env renderable w =
     (let ctx = view_context renderable;
          shader = js_or (customShader ctx) (this_shader w)
      in if batches (getGpuContext env ctx) = [] then (Returned, w)
         else
           (let rd = getContextRenderData env ctx;
                w1 = w\<lparr>state_blendMode := layerBlendMode renderable\<rparr>
            in case shader of
                 None \<Rightarrow> (Threw TypeError, w1)
               | Some sh \<Rightarrow>
                   (case localUniforms (shaders w1 sh) of
                      None \<Rightarrow> (Threw TypeError, w1)
                    | Some lu \<Rightarrow>
                        (case uColor lu of
                           None \<Rightarrow> (Threw TypeError, writeTransform renderable sh lu w1)
                         | Some out \<Rightarrow>
                             execute_loop env sh (instructions rd) (instructionSize rd) 0
                               (execute_setup env renderable rd sh lu out w1)))))"

subsection \<open>destroy\<close>

text \<open>
  \<open>this._shader.destroy(true); this._shader = null\<close>. \<open>Shader.destroy\<close> is a
  collaborator; the call is recorded with its flag. On an adaptor whose \<open>_shader\<close> is
  already null the method call throws.
\<close>

definition destroy :: "'f world \<Rightarrow> outcome \<times> 'f world" where
  "destroy w =
     (case this_shader w of
        None \<Rightarrow> (Threw TypeError, w)
      | Some s \<Rightarrow> (Returned, w\<lparr>trace := trace w @ [ShaderDestroy s True], this_shader := None\<rparr>))"

subsection \<open>Observations on the calls made\<close>

fun isDrawIndexed :: "'f event \<Rightarrow> bool" where
  "isDrawIndexed (DrawIndexed c n s) = True"
| "isDrawIndexed _ = False"

text \<open>The two calls that build the bind group of a batch.\<close>

fun isConstruction :: "'f event \<Rightarrow> bool" where
  "isConstruction (GetTextureBatchBindGroup ts c) = True"
| "isConstruction (GetBindGroup g p s) = True"
| "isConstruction _ = False"

fun boundAt :: "nat \<Rightarrow> 'f event \<Rightarrow> bool" where
  "boundAt k (SetBindGroup s g p) = (s = k)"
| "boundAt k _ = False"

fun isGetUniformBindGroup :: "'f event \<Rightarrow> bool" where
  "isGetUniformBindGroup (GetUniformBindGroup u d) = True"
| "isGetUniformBindGroup _ = False"

fun isGetTextureBatchBindGroup :: "'f event \<Rightarrow> bool" where
  "isGetTextureBatchBindGroup (GetTextureBatchBindGroup ts c) = True"
| "isGetTextureBatchBindGroup _ = False"

text \<open>The calls the loop body can make: building a bind group, binding slot 1, drawing.\<close>

fun inLoop :: "'f event \<Rightarrow> bool" where
  "inLoop (SetBindGroup s g p) = (s = 1)"
| "inLoop (GetTextureBatchBindGroup ts c) = True"
| "inLoop (GetBindGroup g p s) = True"
| "inLoop (DrawIndexed c n s) = True"
| "inLoop _ = False"

text \<open>
  What \<open>execute\<close> leaves in the local uniforms \<open>lu\<close> of the shader it uses, when
  their \<open>uColor\<close> is the array \<open>out\<close>.
\<close>

definition writtenUniforms ::
  "'f Collaborators \<Rightarrow> Renderable \<Rightarrow> 'f LocalUniforms \<Rightarrow> 'f list \<Rightarrow> 'f LocalUniforms" where
  "writtenUniforms env renderable lu out =
     lu\<lparr>uTransformMatrix := Some (layerTransform renderable),
        uColor := Some (color32BitToUniform env (layerColor renderable) out 0)\<rparr>"

text \<open>The shader object at \<open>s\<close> has local uniforms, and they have \<open>uColor\<close>.\<close>

definition hasColorUniform :: "'f world \<Rightarrow> ref \<Rightarrow> bool" where
  "hasColorUniform w s =
     (case localUniforms (shaders w s) of None \<Rightarrow> False | Some lu \<Rightarrow> uColor lu \<noteq> None)"

text \<open>
  The five calls expected before the loop, from the state \<open>w\<close>, for the shader at
  \<open>sh\<close> with local uniforms \<open>lu\<close> and \<open>uColor\<close> array \<open>out\<close>: pipeline, geometry, the global uniforms at slot 0,
  one request to the uniform batch, and its answer at slot 2.
\<close>

definition setupCalls ::
  "'f Collaborators \<Rightarrow> Renderable \<Rightarrow> GraphicsContextRenderData \<Rightarrow> ref \<Rightarrow> 'f LocalUniforms \<Rightarrow>
   'f list \<Rightarrow> 'f world \<Rightarrow> 'f event list" where
  "setupCalls env renderable rd sh lu out w =
     (let prog = gpuProgram (shaders w sh);
          first = [SetPipelineFromGeometryProgramAndState (geometry rd) prog (state_blendMode w),
                   SetGeometry (geometry rd),
                   SetBindGroup 0 (Some (globalUniforms_bindGroup env)) prog]
      in first @
         [GetUniformBindGroup (writtenUniforms env renderable lu out) True,
          SetBindGroup 2
            (Some (getUniformBindGroup env (trace w @ first) (writtenUniforms env renderable lu out) True))
            prog])"

text \<open>
  The two calls expected for a batch whose GPU bind group is already there: its cached
  bind group at slot 1, and the draw.
\<close>

definition cachedCalls :: "'f world \<Rightarrow> ref \<Rightarrow> ref \<Rightarrow> 'f event list" where
  "cachedCalls w sh r =
     [SetBindGroup 1 (bindGroup (batchHeap w r)) (gpuProgram (shaders w sh)),
      DrawIndexed (size_b (batchHeap w r)) 1 (start (batchHeap w r))]"

text \<open>The calls made between the state \<open>w\<close> and the later state \<open>w'\<close>.\<close>

definition calls :: "'f world \<Rightarrow> 'f world \<Rightarrow> 'f event list" where
  "calls w w' = drop (length (trace w)) (trace w')"


text \<open>
  The state after \<open>k\<close> calls of \<open>execute\<close> on the same renderable, whatever their
  outcome.
\<close>

primrec executes :: "'f Collaborators \<Rightarrow> Renderable \<Rightarrow> nat \<Rightarrow> 'f world \<Rightarrow> 'f world" where
  "executes env renderable 0 w = w"
| "executes env renderable (Suc k) w = snd (execute env renderable (executes env renderable k w))"

subsection \<open>A concrete frame\<close>

text \<open>
  A frame used to run the definitions: the context with uid 0 has no batches; every other
  context has two, and an instruction array of capacity three of which two entries are
  in use. Batch \<open>r\<close> starts at index \<open>6 * r\<close> and covers six indices. The bind-group
  collaborators hand out a new reference at every call. Before \<open>init\<close>
  (\<open>blank_world\<close>) every shader object is one a caller has made, with \<open>uColor\<close> and
  \<open>uTransformMatrix\<close> among its local uniforms; \<open>init\<close> then makes the adaptor's own
  shader, the object at 0 (\<open>frame_world\<close>).
\<close>

definition frame_env :: "nat Collaborators" where
  "frame_env =
     \<lparr>getGpuContext = (\<lambda>c. \<lparr>batches = (if uid c = 0 then [] else [0, 1])\<rparr>),
      getContextRenderData = (\<lambda>c. \<lparr>geometry = 3, instructions = [10, 11, 12], instructionSize = 2\<rparr>),
      globalUniforms_bindGroup = 100,
      getUniformBindGroup = (\<lambda>h u d. 200 + length h),
      getTextureBatchBindGroup = (\<lambda>h ts c. 300 + length h),
      getBindGroup = (\<lambda>h g p s. 400 + length h),
      color32BitToUniform = (\<lambda>c out off. out)\<rparr>"

definition frame_uniforms :: "nat LocalUniforms" where
  "frame_uniforms =
     \<lparr>color = None, transformMatrix = None, uTransformMatrix = None, uColor = Some [1, 1, 1, 1]\<rparr>"

definition blank_world :: "nat world" where
  "blank_world =
     \<lparr>this_shader = None,
      shaders = (\<lambda>r. \<lparr>gpuProgram = 7, localUniforms = Some frame_uniforms, groups = (\<lambda>k. None)\<rparr>),
      batchHeap = (\<lambda>r. \<lparr>start = 6 * r, size_b = 6, textures = ([r], 1),
                         bindGroup = None, gpuBindGroup = None\<rparr>),
      state_blendMode = 0,
      trace = []\<rparr>"

definition frame_world :: "nat world" where
  "frame_world = init 8 7 9 0 blank_world"

definition frame_renderable :: Renderable where
  "frame_renderable =
     \<lparr>view_context = \<lparr>uid = 1, customShader = None\<rparr>,
      layerBlendMode = 1, layerTransform = 5, layerColor = 0xFFFFFFFF\<rparr>"

definition empty_renderable :: Renderable where
  "empty_renderable =
     \<lparr>view_context = \<lparr>uid = 0, customShader = None\<rparr>,
      layerBlendMode = 1, layerTransform = 5, layerColor = 0xFFFFFFFF\<rparr>"

text \<open>A renderable whose context brings its own shader, the object at 4.\<close>

definition custom_renderable :: Renderable where
  "custom_renderable =
     \<lparr>view_context = \<lparr>uid = 2, customShader = Some 4\<rparr>,
      layerBlendMode = 1, layerTransform = 5, layerColor = 0xFFFFFFFF\<rparr>"


section \<open>Application (src/app/Application.ts)\<close>

subsection \<open>Data\<close>

text \<open>
  A plugin is an object with an \<open>init\<close> and a \<open>destroy\<close> method, known here by its
  reference; \<open>Partial<ApplicationOptions>\<close> is a dictionary from option names to values;
  \<open>DestroyOptions\<close> is a boolean or an object of flags.
\<close>

type_synonym plugin = ref

type_synonym options = "string \<rightharpoonup> nat"

datatype DestroyOptions = DestroyFlag bool | DestroyObject "string \<rightharpoonup> bool"

text \<open>The calls \<open>init\<close> and \<open>destroy\<close> make, with receiver and arguments.\<close>

datatype app_event =
    AutoDetectRenderer options
  | PluginInit plugin ref options
  | PluginDestroy plugin ref
  | StageDestroy ref DestroyOptions
  | RendererDestroy ref DestroyOptions

record Application =
  stage :: "ref option"
  renderer :: "ref option"

text \<open>
  Arrays of plugins are objects: \<open>slice\<close> makes a new one and \<open>reverse\<close> changes one
  in place, so they live in a store. The static array \<open>Application._plugins\<close> is at
  address 0; arrays made later get the addresses from 1 on, \<open>next_array\<close> being the
  last one handed out.
\<close>

record app_world =
  arrays :: "ref \<Rightarrow> plugin list"
  next_array :: ref
  apps :: "ref \<Rightarrow> Application"
  app_trace :: "app_event list"

definition Application_plugins :: ref where
  "Application_plugins = 0"

subsection \<open>Array methods\<close>

text \<open>\<open>a.slice(0)\<close>: a new array with the elements of \<open>a\<close>.\<close>

definition slice0 :: "ref \<Rightarrow> app_world \<Rightarrow> ref \<times> app_world" where
  "slice0 a w =
     (let a' = Suc (next_array w)
      in (a', w\<lparr>arrays := (arrays w)(a' := arrays w a), next_array := a'\<rparr>))"

text \<open>\<open>a.reverse()\<close>: reverses \<open>a\<close> in place.\<close>

definition reverse :: "ref \<Rightarrow> app_world \<Rightarrow> app_world" where
  "reverse a w = w\<lparr>arrays := (arrays w)(a := rev (arrays w a))\<rparr>"

text \<open>\<open>xs.forEach(f)\<close>: \<open>f\<close> on each element, first to last.\<close>

definition forEach :: "('a \<Rightarrow> 's \<Rightarrow> 's) \<Rightarrow> 'a list \<Rightarrow> 's \<Rightarrow> 's" where
  "forEach f xs s = fold f xs s"

subsection \<open>init\<close>

text \<open>The defaults that \<open>init\<close> spreads the caller's options over: an empty object.\<close>

definition defaultOptions :: options where
  "defaultOptions = Map.empty"

text \<open>\<open>{...{}, ...options}\<close>; spreading an omitted \<open>options\<close> adds nothing.\<close>

definition mergedOptions :: "options option \<Rightarrow> options" where
  "mergedOptions options =
     defaultOptions ++ (case options of None \<Rightarrow> Map.empty | Some opts \<Rightarrow> opts)"

text \<open>
  \<open>init(options?)\<close> on the application at \<open>this\<close>. \<open>autoDetectRenderer\<close> is a
  collaborator and a parameter; its promise resolves to a renderer or rejects, and a
  rejection leaves \<open>init\<close> before \<open>renderer\<close> is assigned. The plugins' methods are
  collaborators too; each call is recorded.
\<close>

definition Application_init ::
  "(options \<Rightarrow> error + ref) \<Rightarrow> ref \<Rightarrow> options option \<Rightarrow> app_world \<Rightarrow> outcome \<times> app_world" where
  "Application_init autoDetectRenderer this options w =
     (let options1 = mergedOptions options;
          w1 = w\<lparr>app_trace := app_trace w @ [AutoDetectRenderer options1]\<rparr>
      in case autoDetectRenderer options1 of
           Inl e \<Rightarrow> (Threw e, w1)
         | Inr r \<Rightarrow>
             (let w2 = w1\<lparr>apps := (apps w1)(this := (apps w1 this)\<lparr>renderer := Some r\<rparr>)\<rparr>
              in (Returned,
                  forEach (\<lambda>plugin v. v\<lparr>app_trace := app_trace v @ [PluginInit plugin this options1]\<rparr>)
                    (arrays w2 Application_plugins) w2)))"

subsection \<open>destroy\<close>

text \<open>The default parameter \<open>options: DestroyOptions = false\<close>.\<close>

definition orFalse :: "DestroyOptions option \<Rightarrow> DestroyOptions" where
  "orFalse options = (case options of None \<Rightarrow> DestroyFlag False | Some opts \<Rightarrow> opts)"

text \<open>
  \<open>destroy(options = false)\<close> on the application at \<open>this\<close>. Calling \<open>destroy\<close> on
  a null \<open>stage\<close> or \<open>renderer\<close> throws.
\<close>

definition Application_destroy ::
  "ref \<Rightarrow> DestroyOptions option \<Rightarrow> app_world \<Rightarrow> outcome \<times> app_world" where
  "Application_destroy this options w =
     (let options1 = orFalse options;
          (plugins, w1) = slice0 Application_plugins w;
          w2 = reverse plugins w1;
          w3 = forEach (\<lambda>plugin v. v\<lparr>app_trace := app_trace v @ [PluginDestroy plugin this]\<rparr>)
                 (arrays w2 plugins) w2
      in case stage (apps w3 this) of
           None \<Rightarrow> (Threw TypeError, w3)
         | Some st \<Rightarrow>
             (let w4 = w3\<lparr>app_trace := app_trace w3 @ [StageDestroy st options1]\<rparr>;
                  w5 = w4\<lparr>apps := (apps w4)(this := (apps w4 this)\<lparr>stage := None\<rparr>)\<rparr>
              in case renderer (apps w5 this) of
                   None \<Rightarrow> (Threw TypeError, w5)
                 | Some r \<Rightarrow>
                     (let w6 = w5\<lparr>app_trace := app_trace w5 @ [RendererDestroy r options1]\<rparr>
                      in (Returned, w6\<lparr>apps := (apps w6)(this := (apps w6 this)\<lparr>renderer := None\<rparr>)\<rparr>))))"

subsection \<open>Observations on the calls made\<close>

fun isPluginCall :: "app_event \<Rightarrow> bool" where
  "isPluginCall (PluginInit p t opts) = True"
| "isPluginCall (PluginDestroy p t) = True"
| "isPluginCall _ = False"

definition app_calls :: "app_world \<Rightarrow> app_world \<Rightarrow> app_event list" where
  "app_calls w w' = drop (length (app_trace w)) (app_trace w')"

subsection \<open>A concrete application\<close>

text \<open>
  Three plugins A, B, C (the objects 1, 2, 3) registered in that order; the application
  at 9 with its stage at 50, before \<open>init\<close> (\<open>app_fresh\<close>) and after an \<open>init\<close> that
  found the renderer 60 (\<open>app_live\<close>).
\<close>

definition app_fresh :: app_world where
  "app_fresh =
     \<lparr>arrays = (\<lambda>a. if a = 0 then [1, 2, 3] else []),
      next_array = 0,
      apps = (\<lambda>a. \<lparr>stage = Some 50, renderer = None\<rparr>),
      app_trace = []\<rparr>"

definition app_live :: app_world where
  "app_live = app_fresh\<lparr>apps := (\<lambda>a. \<lparr>stage = Some 50, renderer = Some 60\<rparr>)\<rparr>"

definition detect60 :: "options \<Rightarrow> error + ref" where
  "detect60 opts = Inr 60"



section \<open>Properties of GpuGraphicsAdaptor\<close>

subsection \<open>The loop body\<close>

lemma execute_batch_start [simp]:
  "start (batchHeap (execute_batch env sh r w) r') = start (batchHeap w r')"
  by (simp add: execute_batch_def Let_def)

lemma execute_batch_size [simp]:
  "size_b (batchHeap (execute_batch env sh r w) r') = size_b (batchHeap w r')"
  by (simp add: execute_batch_def Let_def)

lemma execute_batch_gpuProgram [simp]:
  "gpuProgram (shaders (execute_batch env sh r w) s) = gpuProgram (shaders w s)"
  by (simp add: execute_batch_def Let_def)

lemma execute_batch_localUniforms [simp]:
  "localUniforms (shaders (execute_batch env sh r w) s) = localUniforms (shaders w s)"
  by (simp add: execute_batch_def Let_def)

lemma execute_batch_this_shader [simp]:
  "this_shader (execute_batch env sh r w) = this_shader w"
  by (simp add: execute_batch_def Let_def)

lemma execute_batch_blendMode [simp]:
  "state_blendMode (execute_batch env sh r w) = state_blendMode w"
  by (simp add: execute_batch_def Let_def)

lemma execute_batch_populates:
  "gpuBindGroup (batchHeap (execute_batch env sh r w) r) \<noteq> None"
  by (simp add: execute_batch_def Let_def)

lemma execute_batch_keeps:
  "gpuBindGroup (batchHeap w r') \<noteq> None \<Longrightarrow>
   batchHeap (execute_batch env sh r w) r' = batchHeap w r'"
  by (auto simp add: execute_batch_def Let_def)

lemma execute_batch_unpopulated:
  "gpuBindGroup (batchHeap (execute_batch env sh r w) r') = None \<longleftrightarrow>
   r' \<noteq> r \<and> gpuBindGroup (batchHeap w r') = None"
  by (simp add: execute_batch_def Let_def)

lemma execute_batch_cached:
  assumes "gpuBindGroup (batchHeap w r) \<noteq> None"
  shows "batchHeap (execute_batch env sh r w) = batchHeap w"
    and "trace (execute_batch env sh r w) = trace w @
           [SetBindGroup 1 (bindGroup (batchHeap w r)) (gpuProgram (shaders w sh)),
            DrawIndexed (size_b (batchHeap w r)) 1 (start (batchHeap w r))]"
  using assms by (auto simp add: execute_batch_def Let_def)

lemma execute_batch_trace:
  "\<exists>ev g. trace (execute_batch env sh r w) = trace w @ ev @
           [SetBindGroup 1 g (gpuProgram (shaders w sh)),
            DrawIndexed (size_b (batchHeap w r)) 1 (start (batchHeap w r))]
        \<and> (\<forall>e \<in> set ev. isConstruction e)"
  by (simp add: execute_batch_def Let_def)

lemma execute_batch_inLoop:
  "\<exists>ev. trace (execute_batch env sh r w) = trace w @ ev \<and> (\<forall>e \<in> set ev. inLoop e)"
  by (simp add: execute_batch_def Let_def)

lemma execute_batch_builds:
  "\<exists>ev. trace (execute_batch env sh r w) = trace w @ ev \<and>
        length (filter isGetTextureBatchBindGroup ev) =
          (if gpuBindGroup (batchHeap w r) = None then 1 else 0)"
  by (simp add: execute_batch_def Let_def)

lemma execute_batch_binds:
  "\<exists>ev. trace (execute_batch env sh r w) = trace w @ ev \<and>
        filter (boundAt 1) ev =
          [SetBindGroup 1 (bindGroup (batchHeap (execute_batch env sh r w) r))
             (gpuProgram (shaders w sh))]"
  by (simp add: execute_batch_def Let_def)

subsection \<open>The loop\<close>

lemma execute_loop_step:
  "i < n \<Longrightarrow> i < length bs \<Longrightarrow>
   execute_loop env sh bs n i w =
   execute_loop env sh bs n (Suc i) (execute_batch env sh (bs ! i) w)"
  by (subst execute_loop.simps) simp

lemma execute_loop_stop:
  "\<not> i < n \<Longrightarrow> execute_loop env sh bs n i w = (Returned, w)"
  by (subst execute_loop.simps) simp

lemma execute_loop_throw:
  "i < n \<Longrightarrow> \<not> i < length bs \<Longrightarrow> execute_loop env sh bs n i w = (Threw TypeError, w)"
  by (subst execute_loop.simps) simp

lemma execute_loop_preserves:
  "\<forall>r v. P v \<longrightarrow> P (execute_batch env sh r v) \<Longrightarrow> P w \<Longrightarrow>
   P (snd (execute_loop env sh bs n i w))"
proof (induction env sh bs n i w rule: execute_loop.induct)
  case (1 env sh bs n i w)
  show ?case
  proof (cases "i < n \<and> i < length bs")
    case True
    have eq: "execute_loop env sh bs n i w =
              execute_loop env sh bs n (Suc i) (execute_batch env sh (bs ! i) w)"
      by (rule execute_loop_step) (use True in simp_all)
    have "P (execute_batch env sh (bs ! i) w)"
      using "1.prems" by blast
    then have "P (snd (execute_loop env sh bs n (Suc i) (execute_batch env sh (bs ! i) w)))"
      using "1.IH" "1.prems"(1) True by blast
    then show ?thesis
      unfolding eq .
  next
    case False
    then have "snd (execute_loop env sh bs n i w) = w"
      by (cases "i < n") (simp_all add: execute_loop_stop execute_loop_throw)
    then show ?thesis
      using "1.prems"(2) by simp
  qed
qed

lemma drop_take_step:
  "i < n \<Longrightarrow> i < length bs \<Longrightarrow> drop i (take n bs) = bs ! i # drop (Suc i) (take n bs)"
  by (metis Cons_nth_drop_Suc length_take min_less_iff_conj nth_take)

lemma drop_take_done:
  "\<not> (i < n \<and> i < length bs) \<Longrightarrow> drop i (take n bs) = []"
  by (auto simp add: not_less)

lemma construction_not_draw: "isConstruction e \<Longrightarrow> \<not> isDrawIndexed e"
  by (cases e) simp_all

lemma execute_loop_returns:
  "n \<le> length bs \<Longrightarrow> fst (execute_loop env sh bs n i w) = Returned"
proof (induction env sh bs n i w rule: execute_loop.induct)
  case (1 env sh bs n i w)
  show ?case
  proof (cases "i < n")
    case True
    then have "i < length bs"
      using "1.prems" by simp
    then have "execute_loop env sh bs n i w =
               execute_loop env sh bs n (Suc i) (execute_batch env sh (bs ! i) w)"
      using True by (simp add: execute_loop_step)
    then show ?thesis
      using "1.IH" [OF True \<open>i < length bs\<close> "1.prems"] by simp
  next
    case False
    then show ?thesis
      by (simp add: execute_loop_stop)
  qed
qed

lemma execute_loop_draws:
  "\<forall>r. start (batchHeap w r) = st r \<and> size_b (batchHeap w r) = sz r \<Longrightarrow>
   \<exists>ev. trace (snd (execute_loop env sh bs n i w)) = trace w @ ev \<and>
        filter isDrawIndexed ev = map (\<lambda>r. DrawIndexed (sz r) 1 (st r)) (drop i (take n bs))"
proof (induction env sh bs n i w rule: execute_loop.induct)
  case (1 env sh bs n i w)
  show ?case
  proof (cases "i < n \<and> i < length bs")
    case True
    let ?v = "execute_batch env sh (bs ! i) w"
    have "\<forall>r. start (batchHeap ?v r) = st r \<and> size_b (batchHeap ?v r) = sz r"
      using "1.prems" by simp
    with "1.IH" True obtain ev where
      ev: "trace (snd (execute_loop env sh bs n (Suc i) ?v)) = trace ?v @ ev"
          "filter isDrawIndexed ev = map (\<lambda>r. DrawIndexed (sz r) 1 (st r)) (drop (Suc i) (take n bs))"
      by blast
    obtain ev0 g where
      ev0: "trace ?v = trace w @ ev0 @
              [SetBindGroup 1 g (gpuProgram (shaders w sh)),
               DrawIndexed (size_b (batchHeap w (bs ! i))) 1 (start (batchHeap w (bs ! i)))]"
           "\<forall>e \<in> set ev0. isConstruction e"
      using execute_batch_trace by blast
    have no_draw: "filter isDrawIndexed ev0 = []"
      using ev0(2) construction_not_draw by (auto simp add: filter_empty_conv)
    have step: "execute_loop env sh bs n i w = execute_loop env sh bs n (Suc i) ?v"
      using True by (simp add: execute_loop_step)
    have "trace (snd (execute_loop env sh bs n i w)) = trace w @
            (ev0 @ [SetBindGroup 1 g (gpuProgram (shaders w sh)),
                    DrawIndexed (size_b (batchHeap w (bs ! i))) 1 (start (batchHeap w (bs ! i)))] @ ev)"
      using step ev(1) ev0(1) by simp
    moreover have "filter isDrawIndexed
            (ev0 @ [SetBindGroup 1 g (gpuProgram (shaders w sh)),
                    DrawIndexed (size_b (batchHeap w (bs ! i))) 1 (start (batchHeap w (bs ! i)))] @ ev)
          = map (\<lambda>r. DrawIndexed (sz r) 1 (st r)) (drop i (take n bs))"
      using no_draw ev(2) "1.prems" True by (simp add: drop_take_step)
    ultimately show ?thesis by blast
  next
    case False
    then have "execute_loop env sh bs n i w = (Returned, w) \<or>
               execute_loop env sh bs n i w = (Threw TypeError, w)"
      by (cases "i < n") (simp_all add: execute_loop_stop execute_loop_throw)
    then show ?thesis
      using False by (auto simp add: drop_take_done)
  qed
qed

lemma execute_loop_inLoop:
  "\<exists>ev. trace (snd (execute_loop env sh bs n i w)) = trace w @ ev \<and> (\<forall>e \<in> set ev. inLoop e)"
proof (induction env sh bs n i w rule: execute_loop.induct)
  case (1 env sh bs n i w)
  show ?case
  proof (cases "i < n \<and> i < length bs")
    case True
    let ?v = "execute_batch env sh (bs ! i) w"
    have eq: "execute_loop env sh bs n i w = execute_loop env sh bs n (Suc i) ?v"
      by (rule execute_loop_step) (use True in simp_all)
    obtain ev0 where ev0: "trace ?v = trace w @ ev0" "\<forall>e \<in> set ev0. inLoop e"
      using execute_batch_inLoop by blast
    obtain ev where ev: "trace (snd (execute_loop env sh bs n (Suc i) ?v)) = trace ?v @ ev"
        "\<forall>e \<in> set ev. inLoop e"
      using "1.IH" True by blast
    have "trace (snd (execute_loop env sh bs n i w)) = trace w @ (ev0 @ ev)"
      unfolding eq using ev0(1) ev(1) by simp
    moreover have "\<forall>e \<in> set (ev0 @ ev). inLoop e"
      using ev0(2) ev(2) by auto
    ultimately show ?thesis by blast
  next
    case False
    then have "snd (execute_loop env sh bs n i w) = w"
      by (cases "i < n") (simp_all add: execute_loop_stop execute_loop_throw)
    then show ?thesis by simp
  qed
qed

lemma execute_loop_cached:
  "\<forall>r \<in> set (drop i (take n bs)). gpuBindGroup (batchHeap w r) \<noteq> None \<Longrightarrow>
   batchHeap (snd (execute_loop env sh bs n i w)) = batchHeap w \<and>
   trace (snd (execute_loop env sh bs n i w)) =
     trace w @ concat (map (cachedCalls w sh) (drop i (take n bs)))"
proof (induction env sh bs n i w rule: execute_loop.induct)
  case (1 env sh bs n i w)
  show ?case
  proof (cases "i < n \<and> i < length bs")
    case True
    let ?v = "execute_batch env sh (bs ! i) w"
    have eq: "execute_loop env sh bs n i w = execute_loop env sh bs n (Suc i) ?v"
      by (rule execute_loop_step) (use True in simp_all)
    have dt: "drop i (take n bs) = bs ! i # drop (Suc i) (take n bs)"
      by (rule drop_take_step) (use True in simp_all)
    have here: "gpuBindGroup (batchHeap w (bs ! i)) \<noteq> None"
      using "1.prems" unfolding dt by simp
    have heap: "batchHeap ?v = batchHeap w"
      and tr: "trace ?v = trace w @ cachedCalls w sh (bs ! i)"
      using execute_batch_cached [OF here] by (simp_all add: cachedCalls_def)
    have same: "cachedCalls ?v sh = cachedCalls w sh"
      by (rule ext) (simp add: cachedCalls_def heap)
    have "\<forall>r \<in> set (drop (Suc i) (take n bs)). gpuBindGroup (batchHeap ?v r) \<noteq> None"
      using "1.prems" unfolding dt heap by simp
    then have "batchHeap (snd (execute_loop env sh bs n (Suc i) ?v)) = batchHeap ?v \<and>
               trace (snd (execute_loop env sh bs n (Suc i) ?v)) =
                 trace ?v @ concat (map (cachedCalls ?v sh) (drop (Suc i) (take n bs)))"
      using "1.IH" True by blast
    then show ?thesis
      unfolding eq dt same heap tr by simp
  next
    case False
    then have "snd (execute_loop env sh bs n i w) = w"
      by (cases "i < n") (simp_all add: execute_loop_stop execute_loop_throw)
    then show ?thesis
      using False by (simp add: drop_take_done)
  qed
qed

lemma execute_loop_populated_kept:
  "gpuBindGroup (batchHeap w r) \<noteq> None \<Longrightarrow>
   gpuBindGroup (batchHeap (snd (execute_loop env sh bs n i w)) r) \<noteq> None"
  by (rule execute_loop_preserves [where P = "\<lambda>v. gpuBindGroup (batchHeap v r) \<noteq> None"])
     (simp_all add: execute_batch_keeps)

lemma execute_loop_populates:
  "\<forall>r \<in> set (drop i (take n bs)).
     gpuBindGroup (batchHeap (snd (execute_loop env sh bs n i w)) r) \<noteq> None"
proof (induction env sh bs n i w rule: execute_loop.induct)
  case (1 env sh bs n i w)
  show ?case
  proof (cases "i < n \<and> i < length bs")
    case True
    let ?v = "execute_batch env sh (bs ! i) w"
    have eq: "execute_loop env sh bs n i w = execute_loop env sh bs n (Suc i) ?v"
      by (rule execute_loop_step) (use True in simp_all)
    have dt: "drop i (take n bs) = bs ! i # drop (Suc i) (take n bs)"
      by (rule drop_take_step) (use True in simp_all)
    have "gpuBindGroup (batchHeap (snd (execute_loop env sh bs n (Suc i) ?v)) (bs ! i)) \<noteq> None"
      by (rule execute_loop_populated_kept) (rule execute_batch_populates)
    moreover have "\<forall>r \<in> set (drop (Suc i) (take n bs)).
        gpuBindGroup (batchHeap (snd (execute_loop env sh bs n (Suc i) ?v)) r) \<noteq> None"
      using "1.IH" True by blast
    ultimately show ?thesis
      unfolding eq dt by simp
  next
    case False
    then show ?thesis
      by (simp add: drop_take_done)
  qed
qed

lemma card_unpopulated_step:
  fixes U U' :: "ref \<Rightarrow> bool"
  assumes "\<forall>x. U' x \<longleftrightarrow> x \<noteq> r \<and> U x"
  shows "card {x \<in> set (r # rest). U x} = (if U r then 1 else 0) + card {x \<in> set rest. U' x}"
proof (cases "U r")
  case True
  have "{x \<in> set (r # rest). U x} = insert r {x \<in> set rest. U' x}"
    using assms True by auto
  moreover have "r \<notin> {x \<in> set rest. U' x}"
    using assms by simp
  ultimately show ?thesis
    using True by simp
next
  case False
  have "{x \<in> set (r # rest). U x} = {x \<in> set rest. U' x}"
    using assms False by auto
  then show ?thesis
    using False by simp
qed

lemma execute_loop_builds:
  "\<exists>ev. trace (snd (execute_loop env sh bs n i w)) = trace w @ ev \<and>
        length (filter isGetTextureBatchBindGroup ev) =
          card {r \<in> set (drop i (take n bs)). gpuBindGroup (batchHeap w r) = None}"
proof (induction env sh bs n i w rule: execute_loop.induct)
  case (1 env sh bs n i w)
  show ?case
  proof (cases "i < n \<and> i < length bs")
    case True
    let ?v = "execute_batch env sh (bs ! i) w"
    have eq: "execute_loop env sh bs n i w = execute_loop env sh bs n (Suc i) ?v"
      by (rule execute_loop_step) (use True in simp_all)
    have dt: "drop i (take n bs) = bs ! i # drop (Suc i) (take n bs)"
      by (rule drop_take_step) (use True in simp_all)
    obtain ev0 where ev0: "trace ?v = trace w @ ev0"
        "length (filter isGetTextureBatchBindGroup ev0) =
           (if gpuBindGroup (batchHeap w (bs ! i)) = None then 1 else 0)"
      using execute_batch_builds by blast
    obtain ev where ev: "trace (snd (execute_loop env sh bs n (Suc i) ?v)) = trace ?v @ ev"
        "length (filter isGetTextureBatchBindGroup ev) =
           card {r \<in> set (drop (Suc i) (take n bs)). gpuBindGroup (batchHeap ?v r) = None}"
      using "1.IH" True by blast
    have card: "card {r \<in> set (drop i (take n bs)). gpuBindGroup (batchHeap w r) = None} =
          (if gpuBindGroup (batchHeap w (bs ! i)) = None then 1 else 0) +
          card {r \<in> set (drop (Suc i) (take n bs)). gpuBindGroup (batchHeap ?v r) = None}"
      unfolding dt
      by (rule card_unpopulated_step) (simp add: execute_batch_unpopulated)
    have "trace (snd (execute_loop env sh bs n i w)) = trace w @ (ev0 @ ev)"
      unfolding eq using ev0(1) ev(1) by simp
    moreover have "length (filter isGetTextureBatchBindGroup (ev0 @ ev)) =
          card {r \<in> set (drop i (take n bs)). gpuBindGroup (batchHeap w r) = None}"
      unfolding card using ev0(2) ev(2) by simp
    ultimately show ?thesis by blast
  next
    case False
    then have "snd (execute_loop env sh bs n i w) = w"
      by (cases "i < n") (simp_all add: execute_loop_stop execute_loop_throw)
    then show ?thesis
      using False by (simp add: drop_take_done)
  qed
qed

lemma execute_loop_batch_kept:
  "gpuBindGroup (batchHeap w r) \<noteq> None \<Longrightarrow>
   batchHeap (snd (execute_loop env sh bs n i w)) r = batchHeap w r"
  by (rule execute_loop_preserves [where P = "\<lambda>v. batchHeap v r = batchHeap w r"])
     (simp_all add: execute_batch_keeps)

lemma execute_loop_gpuProgram:
  "gpuProgram (shaders (snd (execute_loop env sh bs n i w)) s) = gpuProgram (shaders w s)"
  by (rule execute_loop_preserves [where P = "\<lambda>v. gpuProgram (shaders v s) = gpuProgram (shaders w s)"])
     simp_all

lemma execute_loop_binds:
  "\<exists>ev. trace (snd (execute_loop env sh bs n i w)) = trace w @ ev \<and>
        filter (boundAt 1) ev =
          map (\<lambda>r. SetBindGroup 1 (bindGroup (batchHeap (snd (execute_loop env sh bs n i w)) r))
                     (gpuProgram (shaders w sh)))
            (drop i (take n bs))"
proof (induction env sh bs n i w rule: execute_loop.induct)
  case (1 env sh bs n i w)
  show ?case
  proof (cases "i < n \<and> i < length bs")
    case True
    let ?v = "execute_batch env sh (bs ! i) w"
    let ?end = "snd (execute_loop env sh bs n (Suc i) ?v)"
    have eq: "execute_loop env sh bs n i w = execute_loop env sh bs n (Suc i) ?v"
      by (rule execute_loop_step) (use True in simp_all)
    have dt: "drop i (take n bs) = bs ! i # drop (Suc i) (take n bs)"
      by (rule drop_take_step) (use True in simp_all)
    obtain ev0 where ev0: "trace ?v = trace w @ ev0"
        "filter (boundAt 1) ev0 =
           [SetBindGroup 1 (bindGroup (batchHeap ?v (bs ! i))) (gpuProgram (shaders w sh))]"
      using execute_batch_binds by blast
    obtain ev where ev: "trace ?end = trace ?v @ ev"
        "filter (boundAt 1) ev =
           map (\<lambda>r. SetBindGroup 1 (bindGroup (batchHeap ?end r)) (gpuProgram (shaders ?v sh)))
             (drop (Suc i) (take n bs))"
      using "1.IH" True by blast
    have kept: "batchHeap ?end (bs ! i) = batchHeap ?v (bs ! i)"
      by (rule execute_loop_batch_kept) (rule execute_batch_populates)
    have "trace ?end = trace w @ (ev0 @ ev)"
      using ev0(1) ev(1) by simp
    moreover have "filter (boundAt 1) (ev0 @ ev) =
        map (\<lambda>r. SetBindGroup 1 (bindGroup (batchHeap ?end r)) (gpuProgram (shaders w sh)))
          (bs ! i # drop (Suc i) (take n bs))"
      using ev0(2) ev(2) kept by simp
    ultimately show ?thesis
      unfolding eq dt by blast
  next
    case False
    then have "snd (execute_loop env sh bs n i w) = w"
      by (cases "i < n") (simp_all add: execute_loop_stop execute_loop_throw)
    then show ?thesis
      using False by (simp add: drop_take_done)
  qed
qed

subsection \<open>The calls before the loop\<close>

lemma calls_append: "trace w' = trace w @ ev \<Longrightarrow> calls w w' = ev"
  by (simp add: calls_def)

lemma calls_trans:
  "trace v = trace w @ a \<Longrightarrow> trace u = trace v @ b \<Longrightarrow> calls w u = calls w v @ calls v u"
  by (simp add: calls_def)

lemma inLoop_not_frame:
  "inLoop e \<Longrightarrow> \<not> boundAt 0 e \<and> \<not> boundAt 2 e \<and> \<not> isGetUniformBindGroup e"
  by (cases e) simp_all

lemma inLoop_filter_frame:
  assumes "\<forall>e \<in> set ev. inLoop e"
  shows "filter (boundAt 0) ev = []" and "filter (boundAt 2) ev = []"
    and "filter isGetUniformBindGroup ev = []"
  using assms inLoop_not_frame by (auto simp add: filter_empty_conv)

lemma writeTransform_batchHeap [simp]:
  "batchHeap (writeTransform rend sh lu w) = batchHeap w"
  by (simp add: writeTransform_def)

lemma writeTransform_trace [simp]:
  "trace (writeTransform rend sh lu w) = trace w"
  by (simp add: writeTransform_def)

lemma writeTransform_this_shader [simp]:
  "this_shader (writeTransform rend sh lu w) = this_shader w"
  by (simp add: writeTransform_def)

lemma writeTransform_gpuProgram [simp]:
  "gpuProgram (shaders (writeTransform rend sh lu w) s) = gpuProgram (shaders w s)"
  by (simp add: writeTransform_def)

lemma writeTransform_localUniforms:
  "localUniforms (shaders (writeTransform rend sh lu w) s) =
     (if s = sh then Some (lu\<lparr>uTransformMatrix := Some (layerTransform rend)\<rparr>)
      else localUniforms (shaders w s))"
  by (simp add: writeTransform_def)

lemma execute_setup_trace:
  "trace (execute_setup env rend rd sh lu out w) = trace w @ setupCalls env rend rd sh lu out w"
  by (simp add: execute_setup_def setupCalls_def writtenUniforms_def writeTransform_def Let_def)

lemma execute_setup_batchHeap [simp]:
  "batchHeap (execute_setup env rend rd sh lu out w) = batchHeap w"
  by (simp add: execute_setup_def Let_def)

lemma execute_setup_this_shader [simp]:
  "this_shader (execute_setup env rend rd sh lu out w) = this_shader w"
  by (simp add: execute_setup_def Let_def)

lemma execute_setup_gpuProgram [simp]:
  "gpuProgram (shaders (execute_setup env rend rd sh lu out w) s) = gpuProgram (shaders w s)"
  by (simp add: execute_setup_def Let_def)

lemma execute_setup_localUniforms:
  "localUniforms (shaders (execute_setup env rend rd sh lu out w) s) =
     (if s = sh then Some (writtenUniforms env rend lu out) else localUniforms (shaders w s))"
  by (simp add: execute_setup_def writtenUniforms_def writeTransform_def Let_def)

lemma setupCalls_no_draw: "filter isDrawIndexed (setupCalls env rend rd sh lu out w) = []"
  by (simp add: setupCalls_def Let_def)

lemma setupCalls_length: "length (setupCalls env rend rd sh lu out w) = 5"
  by (simp add: setupCalls_def Let_def)

lemma setupCalls_frame:
  "length (filter (boundAt 0) (setupCalls env rend rd sh lu out w)) = 1"
  "length (filter (boundAt 2) (setupCalls env rend rd sh lu out w)) = 1"
  "length (filter isGetUniformBindGroup (setupCalls env rend rd sh lu out w)) = 1"
  by (simp_all add: setupCalls_def Let_def)

lemma setupCalls_not_loop:
  "filter isConstruction (setupCalls env rend rd sh lu out w) = []"
  "filter (boundAt 1) (setupCalls env rend rd sh lu out w) = []"
  by (simp_all add: setupCalls_def Let_def)

lemma setupCalls_no_build:
  "filter isGetTextureBatchBindGroup (setupCalls env rend rd sh lu out w) = []"
  by (simp add: setupCalls_def Let_def)

lemma filter_cachedCalls:
  "filter isConstruction (concat (map (cachedCalls v sh) bs)) = []"
  "filter (boundAt 1) (concat (map (cachedCalls v sh) bs)) =
     map (\<lambda>r. SetBindGroup 1 (bindGroup (batchHeap v r)) (gpuProgram (shaders v sh))) bs"
  by (induction bs) (simp_all add: cachedCalls_def)

lemma hasColorUniformE:
  assumes "hasColorUniform w s"
  obtains lu out where "localUniforms (shaders w s) = Some lu" and "uColor lu = Some out"
  using assms by (auto simp add: hasColorUniform_def split: option.splits)

lemma hasColorUniformI:
  "localUniforms (shaders w s) = Some lu \<Longrightarrow> uColor lu = Some out \<Longrightarrow> hasColorUniform w s"
  by (simp add: hasColorUniform_def)

subsection \<open>One call of execute\<close>

lemma execute_reaches_loop:
  assumes "batches (getGpuContext env (view_context rend)) \<noteq> []"
    and "js_or (customShader (view_context rend)) (this_shader w) = Some sh"
    and "localUniforms (shaders w sh) = Some lu"
    and "uColor lu = Some out"
  shows "execute env rend w =
           execute_loop env sh (instructions (getContextRenderData env (view_context rend)))
             (instructionSize (getContextRenderData env (view_context rend))) 0
             (execute_setup env rend (getContextRenderData env (view_context rend)) sh lu out
                (w\<lparr>state_blendMode := layerBlendMode rend\<rparr>))"
  using assms by (simp add: execute_def Let_def)

text \<open>The paths of \<open>execute\<close> that end before the loop make no call and touch no batch.\<close>

lemma execute_stops_early:
  assumes "\<not> (batches (getGpuContext env (view_context rend)) \<noteq> [] \<and>
              (\<exists>sh. js_or (customShader (view_context rend)) (this_shader w) = Some sh \<and>
                    hasColorUniform w sh))"
  shows "batchHeap (snd (execute env rend w)) = batchHeap w"
    and "trace (snd (execute env rend w)) = trace w"
  using assms
  by (auto simp add: execute_def hasColorUniform_def Let_def split: option.splits)

lemma execute_throws_without_uColor:
  assumes "batches (getGpuContext env (view_context rend)) \<noteq> []"
    and "js_or (customShader (view_context rend)) (this_shader w) = Some sh"
    and "localUniforms (shaders w sh) = Some lu"
    and "uColor lu = None"
  shows "execute env rend w =
           (Threw TypeError, writeTransform rend sh lu (w\<lparr>state_blendMode := layerBlendMode rend\<rparr>))"
    and "calls w (snd (execute env rend w)) = []"
  using assms by (simp_all add: execute_def calls_def Let_def)

lemma execute_calls:
  assumes "batches (getGpuContext env (view_context rend)) \<noteq> []"
    and "js_or (customShader (view_context rend)) (this_shader w) = Some sh"
    and "localUniforms (shaders w sh) = Some lu"
    and "uColor lu = Some out"
  shows "\<exists>ev. calls w (snd (execute env rend w)) =
              setupCalls env rend (getContextRenderData env (view_context rend)) sh lu out
                (w\<lparr>state_blendMode := layerBlendMode rend\<rparr>) @ ev
            \<and> (\<forall>e \<in> set ev. inLoop e)
            \<and> filter isDrawIndexed ev =
                map (\<lambda>r. DrawIndexed (size_b (batchHeap w r)) 1 (start (batchHeap w r)))
                  (take (instructionSize (getContextRenderData env (view_context rend)))
                     (instructions (getContextRenderData env (view_context rend))))
            \<and> filter (boundAt 1) ev =
                map (\<lambda>r. SetBindGroup 1 (bindGroup (batchHeap (snd (execute env rend w)) r))
                           (gpuProgram (shaders w sh)))
                  (take (instructionSize (getContextRenderData env (view_context rend)))
                     (instructions (getContextRenderData env (view_context rend))))"
proof -
  let ?rd = "getContextRenderData env (view_context rend)"
  let ?w1 = "w\<lparr>state_blendMode := layerBlendMode rend\<rparr>"
  let ?v = "execute_setup env rend ?rd sh lu out ?w1"
  let ?res = "execute_loop env sh (instructions ?rd) (instructionSize ?rd) 0 ?v"
  have ex: "execute env rend w = ?res"
    by (rule execute_reaches_loop) (rule assms)+
  have tv: "trace ?v = trace w @ setupCalls env rend ?rd sh lu out ?w1"
    using execute_setup_trace [of env rend ?rd sh lu out ?w1] by simp
  obtain ev where ev: "trace (snd ?res) = trace ?v @ ev" "\<forall>e \<in> set ev. inLoop e"
    using execute_loop_inLoop by blast
  have "\<forall>r. start (batchHeap ?v r) = start (batchHeap w r) \<and>
            size_b (batchHeap ?v r) = size_b (batchHeap w r)"
    by simp
  then obtain ev' where ev': "trace (snd ?res) = trace ?v @ ev'"
      "filter isDrawIndexed ev' =
         map (\<lambda>r. DrawIndexed (size_b (batchHeap w r)) 1 (start (batchHeap w r)))
           (drop 0 (take (instructionSize ?rd) (instructions ?rd)))"
    using execute_loop_draws [of ?v "\<lambda>r. start (batchHeap w r)" "\<lambda>r. size_b (batchHeap w r)"
        env sh "instructions ?rd" "instructionSize ?rd" 0]
    by blast
  obtain ev'' where ev'': "trace (snd ?res) = trace ?v @ ev''"
      "filter (boundAt 1) ev'' =
         map (\<lambda>r. SetBindGroup 1 (bindGroup (batchHeap (snd ?res) r)) (gpuProgram (shaders ?v sh)))
           (drop 0 (take (instructionSize ?rd) (instructions ?rd)))"
    using execute_loop_binds [of env sh "instructions ?rd" "instructionSize ?rd" 0 ?v]
    by blast
  have same: "ev' = ev" "ev'' = ev"
    using ev(1) ev'(1) ev''(1) by simp_all
  have prog: "gpuProgram (shaders ?v sh) = gpuProgram (shaders w sh)"
    by simp
  have "trace (snd (execute env rend w)) = trace w @ (setupCalls env rend ?rd sh lu out ?w1 @ ev)"
    unfolding ex using ev(1) tv by simp
  then have "calls w (snd (execute env rend w)) = setupCalls env rend ?rd sh lu out ?w1 @ ev"
    by (rule calls_append)
  moreover have "filter isDrawIndexed ev =
      map (\<lambda>r. DrawIndexed (size_b (batchHeap w r)) 1 (start (batchHeap w r)))
        (take (instructionSize ?rd) (instructions ?rd))"
    using ev'(2) same(1) by simp
  moreover have "filter (boundAt 1) ev =
      map (\<lambda>r. SetBindGroup 1 (bindGroup (batchHeap (snd (execute env rend w)) r))
                 (gpuProgram (shaders w sh)))
        (take (instructionSize ?rd) (instructions ?rd))"
    using ev''(2) same(2) unfolding ex prog by simp
  ultimately show ?thesis
    using ev(2) by blast
qed

lemma execute_preserves:
  assumes body: "\<forall>sh r v. P v \<longrightarrow> P (execute_batch env sh r v)"
    and prelude: "\<forall>rd sh lu out v. P v \<longrightarrow> localUniforms (shaders v sh) = Some lu \<longrightarrow>
                    uColor lu = Some out \<longrightarrow> P (execute_setup env rend rd sh lu out v)"
    and transform: "\<forall>sh lu v. P v \<longrightarrow> localUniforms (shaders v sh) = Some lu \<longrightarrow>
                    uColor lu = None \<longrightarrow> P (writeTransform rend sh lu v)"
    and blend: "\<forall>v. P v \<longrightarrow> P (v\<lparr>state_blendMode := layerBlendMode rend\<rparr>)"
    and initial: "P w"
  shows "P (snd (execute env rend w))"
proof (cases "batches (getGpuContext env (view_context rend)) = []")
  case True
  then show ?thesis
    using initial by (simp add: execute_def Let_def)
next
  case False
  let ?w1 = "w\<lparr>state_blendMode := layerBlendMode rend\<rparr>"
  let ?rd = "getContextRenderData env (view_context rend)"
  have w1: "P ?w1"
    using blend initial by blast
  show ?thesis
  proof (cases "js_or (customShader (view_context rend)) (this_shader w)")
    case None
    then show ?thesis
      using False w1 by (simp add: execute_def Let_def)
  next
    case (Some sh)
    note shader = Some
    show ?thesis
    proof (cases "localUniforms (shaders w sh)")
      case None
      then show ?thesis
        using False shader w1 by (simp add: execute_def Let_def)
    next
      case (Some lu)
      note uniforms = Some
      have lu1: "localUniforms (shaders ?w1 sh) = Some lu"
        using uniforms by simp
      show ?thesis
      proof (cases "uColor lu")
        case None
        have "P (writeTransform rend sh lu ?w1)"
          using transform w1 lu1 None by blast
        then show ?thesis
          using execute_throws_without_uColor(1) [OF False shader uniforms None] by simp
      next
        case (Some out)
        have ex: "execute env rend w =
                    execute_loop env sh (instructions ?rd) (instructionSize ?rd) 0
                      (execute_setup env rend ?rd sh lu out ?w1)"
          by (rule execute_reaches_loop [OF False shader uniforms Some])
        have "P (execute_setup env rend ?rd sh lu out ?w1)"
          using prelude w1 lu1 Some by blast
        moreover have "\<forall>r v. P v \<longrightarrow> P (execute_batch env sh r v)"
          using body by blast
        ultimately show ?thesis
          unfolding ex by (rule execute_loop_preserves [rotated])
      qed
    qed
  qed
qed

lemma execute_this_shader: "this_shader (snd (execute env rend w)) = this_shader w"
  by (rule execute_preserves [where P = "\<lambda>v. this_shader v = this_shader w"]) simp_all

lemma execute_gpuProgram: "gpuProgram (shaders (snd (execute env rend w)) s) = gpuProgram (shaders w s)"
  by (rule execute_preserves [where P = "\<lambda>v. gpuProgram (shaders v s) = gpuProgram (shaders w s)"])
     simp_all

lemma execute_hasColorUniform_kept:
  "hasColorUniform w s \<Longrightarrow> hasColorUniform (snd (execute env rend w)) s"
  by (rule execute_preserves [where P = "\<lambda>v. hasColorUniform v s"])
     (auto simp add: hasColorUniform_def execute_setup_localUniforms writeTransform_localUniforms
        writtenUniforms_def)

lemma execute_batch_kept:
  "gpuBindGroup (batchHeap w r) \<noteq> None \<Longrightarrow> batchHeap (snd (execute env rend w)) r = batchHeap w r"
  by (rule execute_preserves [where P = "\<lambda>v. batchHeap v r = batchHeap w r"])
     (simp_all add: execute_batch_keeps)

lemma execute_trace_extends: "\<exists>ev. trace (snd (execute env rend w)) = trace w @ ev"
proof (rule execute_preserves [where P = "\<lambda>v. \<exists>ev. trace v = trace w @ ev"])
  show "\<forall>sh r v. (\<exists>ev. trace v = trace w @ ev) \<longrightarrow>
          (\<exists>ev. trace (execute_batch env sh r v) = trace w @ ev)"
    using execute_batch_inLoop by (metis append.assoc)
  show "\<forall>rd sh lu out v. (\<exists>ev. trace v = trace w @ ev) \<longrightarrow>
          localUniforms (shaders v sh) = Some lu \<longrightarrow> uColor lu = Some out \<longrightarrow>
          (\<exists>ev. trace (execute_setup env rend rd sh lu out v) = trace w @ ev)"
    by (auto simp add: execute_setup_trace)
qed simp_all

lemma execute_populates:
  assumes "batches (getGpuContext env (view_context rend)) \<noteq> []"
    and "js_or (customShader (view_context rend)) (this_shader w) = Some sh"
    and "localUniforms (shaders w sh) = Some lu"
    and "uColor lu = Some out"
  shows "\<forall>r \<in> set (take (instructionSize (getContextRenderData env (view_context rend)))
                      (instructions (getContextRenderData env (view_context rend)))).
           gpuBindGroup (batchHeap (snd (execute env rend w)) r) \<noteq> None"
  using execute_loop_populates [of 0] unfolding execute_reaches_loop [OF assms] by simp

lemma execute_cached:
  assumes "batches (getGpuContext env (view_context rend)) \<noteq> []"
    and "js_or (customShader (view_context rend)) (this_shader v) = Some sh"
    and "localUniforms (shaders v sh) = Some lu"
    and "uColor lu = Some out"
    and "\<forall>r \<in> set (take (instructionSize (getContextRenderData env (view_context rend)))
                      (instructions (getContextRenderData env (view_context rend)))).
           gpuBindGroup (batchHeap v r) \<noteq> None"
  shows "batchHeap (snd (execute env rend v)) = batchHeap v \<and>
         calls v (snd (execute env rend v)) =
           setupCalls env rend (getContextRenderData env (view_context rend)) sh lu out
             (v\<lparr>state_blendMode := layerBlendMode rend\<rparr>) @
           concat (map (cachedCalls v sh)
             (take (instructionSize (getContextRenderData env (view_context rend)))
                (instructions (getContextRenderData env (view_context rend)))))"
proof -
  let ?rd = "getContextRenderData env (view_context rend)"
  let ?v1 = "v\<lparr>state_blendMode := layerBlendMode rend\<rparr>"
  let ?u = "execute_setup env rend ?rd sh lu out ?v1"
  let ?bs = "take (instructionSize ?rd) (instructions ?rd)"
  have ex: "execute env rend v = execute_loop env sh (instructions ?rd) (instructionSize ?rd) 0 ?u"
    by (rule execute_reaches_loop) (rule assms)+
  have "\<forall>r \<in> set (drop 0 ?bs). gpuBindGroup (batchHeap ?u r) \<noteq> None"
    using assms(5) by simp
  then have loop: "batchHeap (snd (execute env rend v)) = batchHeap ?u"
      "trace (snd (execute env rend v)) = trace ?u @ concat (map (cachedCalls ?u sh) (drop 0 ?bs))"
    unfolding ex using execute_loop_cached [of 0 "instructionSize ?rd" "instructions ?rd" ?u env sh]
    by blast+
  have same: "cachedCalls ?u sh = cachedCalls v sh"
    by (rule ext) (simp add: cachedCalls_def)
  have "trace (snd (execute env rend v)) =
          trace v @ (setupCalls env rend ?rd sh lu out ?v1 @ concat (map (cachedCalls v sh) ?bs))"
    using loop(2) execute_setup_trace [of env rend ?rd sh lu out ?v1] unfolding same by simp
  then have "calls v (snd (execute env rend v)) =
          setupCalls env rend ?rd sh lu out ?v1 @ concat (map (cachedCalls v sh) ?bs)"
    by (rule calls_append)
  then show ?thesis
    using loop(1) by simp
qed

lemma execute_builds:
  assumes "batches (getGpuContext env (view_context rend)) \<noteq> []"
    and "js_or (customShader (view_context rend)) (this_shader w) = Some sh"
    and "localUniforms (shaders w sh) = Some lu"
    and "uColor lu = Some out"
  shows "length (filter isGetTextureBatchBindGroup (calls w (snd (execute env rend w)))) =
           card {r \<in> set (take (instructionSize (getContextRenderData env (view_context rend)))
                            (instructions (getContextRenderData env (view_context rend)))).
                 gpuBindGroup (batchHeap w r) = None}"
proof -
  let ?rd = "getContextRenderData env (view_context rend)"
  let ?w1 = "w\<lparr>state_blendMode := layerBlendMode rend\<rparr>"
  let ?u = "execute_setup env rend ?rd sh lu out ?w1"
  have ex: "execute env rend w = execute_loop env sh (instructions ?rd) (instructionSize ?rd) 0 ?u"
    by (rule execute_reaches_loop) (rule assms)+
  obtain ev where ev: "trace (snd (execute env rend w)) = trace ?u @ ev"
      "length (filter isGetTextureBatchBindGroup ev) =
         card {r \<in> set (drop 0 (take (instructionSize ?rd) (instructions ?rd))).
               gpuBindGroup (batchHeap ?u r) = None}"
    unfolding ex using execute_loop_builds by blast
  have "trace (snd (execute env rend w)) = trace w @ (setupCalls env rend ?rd sh lu out ?w1 @ ev)"
    using ev(1) execute_setup_trace [of env rend ?rd sh lu out ?w1] by simp
  then have "calls w (snd (execute env rend w)) = setupCalls env rend ?rd sh lu out ?w1 @ ev"
    by (rule calls_append)
  then show ?thesis
    using ev(2) by (simp add: setupCalls_no_build)
qed

text \<open>
  One call asks for at most as many texture bind groups as there are batches in range
  without a GPU bind group, and what it asks for is no longer missing afterwards.
\<close>

lemma execute_builds_le:
  "length (filter isGetTextureBatchBindGroup (calls w (snd (execute env rend w)))) +
   card {r \<in> set (take (instructionSize (getContextRenderData env (view_context rend)))
                    (instructions (getContextRenderData env (view_context rend)))).
         gpuBindGroup (batchHeap (snd (execute env rend w)) r) = None}
   \<le> card {r \<in> set (take (instructionSize (getContextRenderData env (view_context rend)))
                      (instructions (getContextRenderData env (view_context rend)))).
           gpuBindGroup (batchHeap w r) = None}"
proof (cases "batches (getGpuContext env (view_context rend)) \<noteq> [] \<and>
              (\<exists>sh. js_or (customShader (view_context rend)) (this_shader w) = Some sh \<and>
                    hasColorUniform w sh)")
  case True
  then obtain sh where sh: "js_or (customShader (view_context rend)) (this_shader w) = Some sh"
      and "hasColorUniform w sh"
    by blast
  then obtain lu out where lu: "localUniforms (shaders w sh) = Some lu" "uColor lu = Some out"
    by (auto elim: hasColorUniformE)
  have ne: "batches (getGpuContext env (view_context rend)) \<noteq> []"
    using True by blast
  have "{r \<in> set (take (instructionSize (getContextRenderData env (view_context rend)))
                    (instructions (getContextRenderData env (view_context rend)))).
         gpuBindGroup (batchHeap (snd (execute env rend w)) r) = None} = {}"
    using execute_populates [OF ne sh lu] by blast
  then show ?thesis
    using execute_builds [OF ne sh lu] by simp
next
  case False
  have "calls w (snd (execute env rend w)) = []"
    using execute_stops_early(2) [OF False] by (simp add: calls_def)
  then show ?thesis
    using execute_stops_early(1) [OF False] by simp
qed

text \<open>
  Whatever one call binds at slot 1 is the bind group found, after the call, in a batch
  in range that has its GPU bind group.
\<close>

lemma execute_binds_cached:
  "\<forall>e \<in> set (calls w (snd (execute env rend w))). boundAt 1 e \<longrightarrow>
     (\<exists>r \<in> set (take (instructionSize (getContextRenderData env (view_context rend)))
                    (instructions (getContextRenderData env (view_context rend)))).
        gpuBindGroup (batchHeap (snd (execute env rend w)) r) \<noteq> None \<and>
        (\<exists>p. e = SetBindGroup 1 (bindGroup (batchHeap (snd (execute env rend w)) r)) p))"
proof (cases "batches (getGpuContext env (view_context rend)) \<noteq> [] \<and>
              (\<exists>sh. js_or (customShader (view_context rend)) (this_shader w) = Some sh \<and>
                    hasColorUniform w sh)")
  case True
  let ?rd = "getContextRenderData env (view_context rend)"
  let ?bs = "take (instructionSize ?rd) (instructions ?rd)"
  let ?w' = "snd (execute env rend w)"
  from True obtain sh where sh: "js_or (customShader (view_context rend)) (this_shader w) = Some sh"
      and "hasColorUniform w sh"
    by blast
  then obtain lu out where lu: "localUniforms (shaders w sh) = Some lu" "uColor lu = Some out"
    by (auto elim: hasColorUniformE)
  have ne: "batches (getGpuContext env (view_context rend)) \<noteq> []"
    using True by blast
  obtain ev where ev: "calls w ?w' =
        setupCalls env rend ?rd sh lu out (w\<lparr>state_blendMode := layerBlendMode rend\<rparr>) @ ev"
      "filter (boundAt 1) ev =
         map (\<lambda>r. SetBindGroup 1 (bindGroup (batchHeap ?w' r)) (gpuProgram (shaders w sh))) ?bs"
    using execute_calls [OF ne sh lu] by blast
  have bound: "filter (boundAt 1) (calls w ?w') =
      map (\<lambda>r. SetBindGroup 1 (bindGroup (batchHeap ?w' r)) (gpuProgram (shaders w sh))) ?bs"
    unfolding ev(1) filter_append setupCalls_not_loop ev(2) by simp
  have populated: "\<forall>r \<in> set ?bs. gpuBindGroup (batchHeap ?w' r) \<noteq> None"
    by (rule execute_populates [OF ne sh lu])
  show ?thesis
  proof (intro ballI impI)
    fix e
    assume "e \<in> set (calls w ?w')" and "boundAt 1 e"
    then have "e \<in> set (filter (boundAt 1) (calls w ?w'))"
      by simp
    then obtain r where "r \<in> set ?bs"
        and "e = SetBindGroup 1 (bindGroup (batchHeap ?w' r)) (gpuProgram (shaders w sh))"
      unfolding bound by auto
    then show "\<exists>r \<in> set ?bs. gpuBindGroup (batchHeap ?w' r) \<noteq> None \<and>
                 (\<exists>p. e = SetBindGroup 1 (bindGroup (batchHeap ?w' r)) p)"
      using populated by blast
  qed
next
  case False
  have "calls w (snd (execute env rend w)) = []"
    using execute_stops_early(2) [OF False] by (simp add: calls_def)
  then show ?thesis by simp
qed

subsection \<open>Repeated calls of execute\<close>

lemma executes_shader:
  "this_shader (executes env rend k w) = this_shader w \<and>
   gpuProgram (shaders (executes env rend k w) s) = gpuProgram (shaders w s) \<and>
   (hasColorUniform w s \<longrightarrow> hasColorUniform (executes env rend k w) s)"
  by (induction k) (simp_all add: execute_this_shader execute_gpuProgram execute_hasColorUniform_kept)

lemma executes_batch_kept:
  "gpuBindGroup (batchHeap w r) \<noteq> None \<Longrightarrow> batchHeap (executes env rend k w) r = batchHeap w r"
proof (induction k)
  case 0
  show ?case by simp
next
  case (Suc k)
  have "gpuBindGroup (batchHeap (executes env rend k w) r) \<noteq> None"
    using Suc by simp
  then have "batchHeap (snd (execute env rend (executes env rend k w))) r =
             batchHeap (executes env rend k w) r"
    by (rule execute_batch_kept)
  then show ?case
    using Suc by simp
qed

lemma executes_trace_extends: "\<exists>ev. trace (executes env rend k w) = trace w @ ev"
proof (induction k)
  case 0
  show ?case by simp
next
  case (Suc k)
  then obtain a where a: "trace (executes env rend k w) = trace w @ a"
    by blast
  obtain b where "trace (snd (execute env rend (executes env rend k w))) =
                    trace (executes env rend k w) @ b"
    using execute_trace_extends by blast
  then have "trace (executes env rend (Suc k) w) = trace w @ (a @ b)"
    using a by simp
  then show ?case by blast
qed

lemma executes_builds_le:
  "length (filter isGetTextureBatchBindGroup (calls w (executes env rend k w))) +
   card {r \<in> set (take (instructionSize (getContextRenderData env (view_context rend)))
                    (instructions (getContextRenderData env (view_context rend)))).
         gpuBindGroup (batchHeap (executes env rend k w) r) = None}
   \<le> card {r \<in> set (take (instructionSize (getContextRenderData env (view_context rend)))
                      (instructions (getContextRenderData env (view_context rend)))).
           gpuBindGroup (batchHeap w r) = None}"
proof (induction k)
  case 0
  show ?case by (simp add: calls_def)
next
  case (Suc k)
  let ?v = "executes env rend k w"
  let ?u = "executes env rend (Suc k) w"
  obtain a where a: "trace ?v = trace w @ a"
    using executes_trace_extends by blast
  obtain b where b: "trace ?u = trace ?v @ b"
    using execute_trace_extends [of env rend ?v] by auto
  have split: "calls w ?u = calls w ?v @ calls ?v ?u"
    by (rule calls_trans [OF a b])
  have step: "length (filter isGetTextureBatchBindGroup (calls ?v ?u)) +
      card {r \<in> set (take (instructionSize (getContextRenderData env (view_context rend)))
                       (instructions (getContextRenderData env (view_context rend)))).
            gpuBindGroup (batchHeap ?u r) = None}
      \<le> card {r \<in> set (take (instructionSize (getContextRenderData env (view_context rend)))
                         (instructions (getContextRenderData env (view_context rend)))).
              gpuBindGroup (batchHeap ?v r) = None}"
    using execute_builds_le [of ?v env rend] by simp
  show ?case
    unfolding split using step Suc by simp
qed

lemma executes_binds_cached:
  "\<forall>e \<in> set (calls w (executes env rend k w)). boundAt 1 e \<longrightarrow>
     (\<exists>r \<in> set (take (instructionSize (getContextRenderData env (view_context rend)))
                    (instructions (getContextRenderData env (view_context rend)))).
        gpuBindGroup (batchHeap (executes env rend k w) r) \<noteq> None \<and>
        (\<exists>p. e = SetBindGroup 1 (bindGroup (batchHeap (executes env rend k w) r)) p))"
proof (induction k)
  case 0
  show ?case by (simp add: calls_def)
next
  case (Suc k)
  let ?rd = "getContextRenderData env (view_context rend)"
  let ?bs = "take (instructionSize ?rd) (instructions ?rd)"
  let ?v = "executes env rend k w"
  let ?u = "executes env rend (Suc k) w"
  obtain a where a: "trace ?v = trace w @ a"
    using executes_trace_extends by blast
  obtain b where b: "trace ?u = trace ?v @ b"
    using execute_trace_extends [of env rend ?v] by auto
  have split: "calls w ?u = calls w ?v @ calls ?v ?u"
    by (rule calls_trans [OF a b])
  show ?case
  proof (intro ballI impI)
    fix e
    assume "e \<in> set (calls w ?u)" and slot: "boundAt 1 e"
    then consider "e \<in> set (calls w ?v)" | "e \<in> set (calls ?v ?u)"
      unfolding split by auto
    then show "\<exists>r \<in> set ?bs. gpuBindGroup (batchHeap ?u r) \<noteq> None \<and>
                 (\<exists>p. e = SetBindGroup 1 (bindGroup (batchHeap ?u r)) p)"
    proof cases
      case 1
      then obtain r p where r: "r \<in> set ?bs" "gpuBindGroup (batchHeap ?v r) \<noteq> None"
          "e = SetBindGroup 1 (bindGroup (batchHeap ?v r)) p"
        using Suc slot by blast
      have "batchHeap (snd (execute env rend ?v)) r = batchHeap ?v r"
        using r(2) by (rule execute_batch_kept)
      then have eq: "batchHeap ?u r = batchHeap ?v r"
        by simp
      have "gpuBindGroup (batchHeap ?u r) \<noteq> None"
        unfolding eq by (rule r(2))
      moreover have "e = SetBindGroup 1 (bindGroup (batchHeap ?u r)) p"
        unfolding eq by (rule r(3))
      ultimately show ?thesis
        using r(1) by blast
    next
      case 2
      then have "e \<in> set (calls ?v (snd (execute env rend ?v)))"
        by simp
      then have "\<exists>r \<in> set ?bs. gpuBindGroup (batchHeap (snd (execute env rend ?v)) r) \<noteq> None \<and>
                   (\<exists>p. e = SetBindGroup 1 (bindGroup (batchHeap (snd (execute env rend ?v)) r)) p)"
        using execute_binds_cached [of ?v env rend] slot by blast
      then show ?thesis
        by simp
    qed
  qed
qed

subsection \<open>execute on the shader that init makes\<close>

text \<open>
  The adaptor's own shader has no \<open>uColor\<close>: \<open>init\<close> makes the uniforms under the
  names \<open>color\<close> and \<open>transformMatrix\<close>. On a paint context that has batches and no
  custom shader, \<open>execute\<close> after \<open>init\<close> therefore throws at
  \<open>color32BitToUniform\<close>, with the blend mode and \<open>uTransformMatrix\<close> written and
  no call made on the encoder.
\<close>

lemma execute_own_shader_throws:
  assumes "batches (getGpuContext env (view_context rend)) \<noteq> []"
    and "customShader (view_context rend) = None"
  shows "fst (execute env rend (init m p g s w)) = Threw TypeError"
    and "calls (init m p g s w) (snd (execute env rend (init m p g s w))) = []"
proof -
  let ?lu = "\<lparr>color = Some [1, 1, 1, 1], transformMatrix = Some m,
              uTransformMatrix = None, uColor = None\<rparr>"
  have sh: "js_or (customShader (view_context rend)) (this_shader (init m p g s w)) = Some s"
    using assms(2) by (simp add: js_or_def init_def)
  have lu: "localUniforms (shaders (init m p g s w) s) = Some ?lu"
    by (simp add: init_def)
  have no: "uColor ?lu = None"
    by simp
  show "fst (execute env rend (init m p g s w)) = Threw TypeError"
    using execute_throws_without_uColor(1) [OF assms(1) sh lu no] by simp
  show "calls (init m p g s w) (snd (execute env rend (init m p g s w))) = []"
    by (rule execute_throws_without_uColor(2) [OF assms(1) sh lu no])
qed

subsection \<open>The draw calls\<close>

text \<open>
  What \<open>execute\<close> draws when it gets to the loop: on a paint context that has batches
  (the early exit is not taken), with a shader whose local uniforms have \<open>uColor\<close>,
  and with \<open>instructionSize\<close> within the instruction array, \<open>execute\<close> returns
  normally and its \<open>drawIndexed\<close> calls are, in order, one per batch among the first
  \<open>instructionSize\<close> entries of the array, the \<open>i\<close>-th with count \<open>batch.size\<close>,
  one instance and start offset \<open>batch.start\<close> of the \<open>i\<close>-th batch. There are
  exactly \<open>instructionSize\<close> of them, so no entry past \<open>instructionSize\<close> is drawn.
\<close>

lemma execute_draws_each_batch:
  assumes "batches (getGpuContext env (view_context rend)) \<noteq> []"
    and "js_or (customShader (view_context rend)) (this_shader w) = Some sh"
    and "localUniforms (shaders w sh) = Some lu"
    and "uColor lu = Some out"
    and "instructionSize (getContextRenderData env (view_context rend))
           \<le> length (instructions (getContextRenderData env (view_context rend)))"
  shows "fst (execute env rend w) = Returned \<and>
         filter isDrawIndexed (calls w (snd (execute env rend w))) =
           map (\<lambda>r. DrawIndexed (size_b (batchHeap w r)) 1 (start (batchHeap w r)))
             (take (instructionSize (getContextRenderData env (view_context rend)))
                (instructions (getContextRenderData env (view_context rend)))) \<and>
         length (filter isDrawIndexed (calls w (snd (execute env rend w)))) =
           instructionSize (getContextRenderData env (view_context rend)) \<and>
         (\<forall>i < instructionSize (getContextRenderData env (view_context rend)).
            filter isDrawIndexed (calls w (snd (execute env rend w))) ! i =
              DrawIndexed
                (size_b (batchHeap w (instructions (getContextRenderData env (view_context rend)) ! i)))
                1
                (start (batchHeap w (instructions (getContextRenderData env (view_context rend)) ! i))))"
proof -
  let ?rd = "getContextRenderData env (view_context rend)"
  let ?draws = "filter isDrawIndexed (calls w (snd (execute env rend w)))"
  let ?d = "\<lambda>r. DrawIndexed (size_b (batchHeap w r)) 1 (start (batchHeap w r))"
  have "execute env rend w =
          execute_loop env sh (instructions ?rd) (instructionSize ?rd) 0
            (execute_setup env rend ?rd sh lu out (w\<lparr>state_blendMode := layerBlendMode rend\<rparr>))"
    by (rule execute_reaches_loop) (rule assms)+
  then have ret: "fst (execute env rend w) = Returned"
    using execute_loop_returns [OF assms(5)] by simp
  have draws: "?draws = map ?d (take (instructionSize ?rd) (instructions ?rd))"
    using execute_calls [OF assms(1-4)] by (auto simp add: setupCalls_no_draw)
  have len: "length ?draws = instructionSize ?rd"
    unfolding draws using assms(5) by simp
  have nth: "\<forall>i < instructionSize ?rd. ?draws ! i = ?d (instructions ?rd ! i)"
    unfolding draws using assms(5) by simp
  show ?thesis
    using ret draws len nth by blast
qed

lemma execute_draws_each_batch_example:
  "fst (execute frame_env custom_renderable frame_world) = Returned \<and>
   filter isDrawIndexed (calls frame_world (snd (execute frame_env custom_renderable frame_world))) =
     [DrawIndexed 6 1 60, DrawIndexed 6 1 66]"
  using execute_draws_each_batch [of frame_env custom_renderable frame_world 4 frame_uniforms "[1, 1, 1, 1]"]
  by (simp add: frame_env_def custom_renderable_def frame_world_def init_def blank_world_def
      frame_uniforms_def js_or_def)

text \<open>
  Claim C1 has one draw call per batch for every non-empty instruction list. With the
  adaptor's own shader this is not what happens: in the concrete frame, after \<open>init\<close>,
  on the context that has two batches in use and no custom shader, \<open>execute\<close> throws
  and makes no draw call.
\<close>

theorem execute_own_shader_draws_nothing:
  "frame_world = init 8 7 9 0 blank_world \<and>
   customShader (view_context frame_renderable) = None \<and>
   batches (getGpuContext frame_env (view_context frame_renderable)) = [0, 1] \<and>
   instructionSize (getContextRenderData frame_env (view_context frame_renderable)) = 2 \<and>
   fst (execute frame_env frame_renderable frame_world) = Threw TypeError \<and>
   filter isDrawIndexed (calls frame_world (snd (execute frame_env frame_renderable frame_world))) = []"
proof -
  have ne: "batches (getGpuContext frame_env (view_context frame_renderable)) \<noteq> []"
    and no: "customShader (view_context frame_renderable) = None"
    by (simp_all add: frame_env_def frame_renderable_def)
  have "fst (execute frame_env frame_renderable frame_world) = Threw TypeError"
    and "calls frame_world (snd (execute frame_env frame_renderable frame_world)) = []"
    unfolding frame_world_def by (rule execute_own_shader_throws [OF ne no])+
  then show ?thesis
    by (simp add: frame_world_def frame_env_def frame_renderable_def)
qed

subsection \<open>The empty paint context\<close>

text \<open>
  Claim C2. When the gpu context of the paint context has no batches, \<open>execute\<close>
  returns normally and leaves the whole state as it was: blend mode, every shader (local
  uniforms and bind groups), every batch (cached bind groups), and the calls made, to
  which nothing is added.
\<close>

theorem execute_empty_context_noop:
  "batches (getGpuContext env (view_context rend)) = [] \<Longrightarrow> execute env rend w = (Returned, w)"
  by (simp add: execute_def Let_def)

theorem execute_empty_context_noop_witness:
  "batches (getGpuContext frame_env (view_context empty_renderable)) = [] \<and>
   execute frame_env empty_renderable frame_world = (Returned, frame_world)"
  using execute_empty_context_noop [of frame_env empty_renderable frame_world]
  by (simp add: frame_env_def empty_renderable_def)

subsection \<open>The cached bind group of a batch\<close>

text \<open>
  Claim C3. For every state and every number \<open>k\<close> of calls of \<open>execute\<close> on the same
  renderable, whatever their outcome: a batch that has its GPU bind group is left as it
  is, \<open>bindGroup\<close> and \<open>gpuBindGroup\<close> included; the \<open>k\<close> calls together ask for
  at most as many texture bind groups as there are distinct batches in range that lacked
  one at the start; and whatever any of them binds at slot 1 is the bind group found
  at the end in a batch in range that has its GPU bind group. Moreover, on a paint context that has batches, with a shader whose
  local uniforms have \<open>uColor\<close>: the first \<open>execute\<close> asks for a texture bind group
  once for each distinct batch among the first \<open>instructionSize\<close> entries whose GPU bind
  group is missing, and afterwards every one of these batches has its GPU bind group;
  every later \<open>execute\<close> (the \<open>k+2\<close>-th, for any \<open>k\<close>) builds nothing, leaves every
  batch as the first call left it, and binds at slot 1, batch by batch, the very bind
  group the first call left in \<open>batch.bindGroup\<close>.
\<close>

theorem bind_group_built_once:
  "(\<forall>r. gpuBindGroup (batchHeap w r) \<noteq> None \<longrightarrow>
        batchHeap (executes env rend k w) r = batchHeap w r) \<and>
   length (filter isGetTextureBatchBindGroup (calls w (executes env rend k w)))
     \<le> card {r \<in> set (take (instructionSize (getContextRenderData env (view_context rend)))
                        (instructions (getContextRenderData env (view_context rend)))).
             gpuBindGroup (batchHeap w r) = None} \<and>
   (\<forall>e \<in> set (calls w (executes env rend k w)). boundAt 1 e \<longrightarrow>
      (\<exists>r \<in> set (take (instructionSize (getContextRenderData env (view_context rend)))
                     (instructions (getContextRenderData env (view_context rend)))).
         gpuBindGroup (batchHeap (executes env rend k w) r) \<noteq> None \<and>
         (\<exists>p. e = SetBindGroup 1 (bindGroup (batchHeap (executes env rend k w) r)) p))) \<and>
   (batches (getGpuContext env (view_context rend)) \<noteq> [] \<and>
    js_or (customShader (view_context rend)) (this_shader w) = Some sh \<and>
    localUniforms (shaders w sh) = Some lu \<and>
    uColor lu = Some out \<longrightarrow>
      length (filter isGetTextureBatchBindGroup (calls w (executes env rend (Suc 0) w))) =
        card {r \<in> set (take (instructionSize (getContextRenderData env (view_context rend)))
                         (instructions (getContextRenderData env (view_context rend)))).
              gpuBindGroup (batchHeap w r) = None} \<and>
      (\<forall>r \<in> set (take (instructionSize (getContextRenderData env (view_context rend)))
                    (instructions (getContextRenderData env (view_context rend)))).
         gpuBindGroup (batchHeap (executes env rend (Suc 0) w) r) \<noteq> None) \<and>
      batchHeap (executes env rend (Suc (Suc k)) w) = batchHeap (executes env rend (Suc 0) w) \<and>
      filter isConstruction
        (calls (executes env rend (Suc k) w) (executes env rend (Suc (Suc k)) w)) = [] \<and>
      filter (boundAt 1)
        (calls (executes env rend (Suc k) w) (executes env rend (Suc (Suc k)) w)) =
        map (\<lambda>r. SetBindGroup 1 (bindGroup (batchHeap (executes env rend (Suc 0) w) r))
                   (gpuProgram (shaders w sh)))
          (take (instructionSize (getContextRenderData env (view_context rend)))
             (instructions (getContextRenderData env (view_context rend)))))"
proof -
  let ?rd = "getContextRenderData env (view_context rend)"
  let ?bs = "take (instructionSize ?rd) (instructions ?rd)"
  let ?v = "\<lambda>j. executes env rend j w"
  have kept: "\<forall>r. gpuBindGroup (batchHeap w r) \<noteq> None \<longrightarrow> batchHeap (?v k) r = batchHeap w r"
    using executes_batch_kept by blast
  have atmost: "length (filter isGetTextureBatchBindGroup (calls w (?v k)))
      \<le> card {r \<in> set ?bs. gpuBindGroup (batchHeap w r) = None}"
    using executes_builds_le [of w env rend k] by simp
  have cached: "length (filter isGetTextureBatchBindGroup (calls w (?v (Suc 0)))) =
        card {r \<in> set ?bs. gpuBindGroup (batchHeap w r) = None} \<and>
      (\<forall>r \<in> set ?bs. gpuBindGroup (batchHeap (?v (Suc 0)) r) \<noteq> None) \<and>
      batchHeap (?v (Suc (Suc k))) = batchHeap (?v (Suc 0)) \<and>
      filter isConstruction (calls (?v (Suc k)) (?v (Suc (Suc k)))) = [] \<and>
      filter (boundAt 1) (calls (?v (Suc k)) (?v (Suc (Suc k)))) =
        map (\<lambda>r. SetBindGroup 1 (bindGroup (batchHeap (?v (Suc 0)) r)) (gpuProgram (shaders w sh))) ?bs"
    if ne: "batches (getGpuContext env (view_context rend)) \<noteq> []"
      and sh: "js_or (customShader (view_context rend)) (this_shader w) = Some sh"
      and lu: "localUniforms (shaders w sh) = Some lu"
      and out: "uColor lu = Some out"
  proof -
    have first: "length (filter isGetTextureBatchBindGroup (calls w (?v (Suc 0)))) =
                   card {r \<in> set ?bs. gpuBindGroup (batchHeap w r) = None}"
      using execute_builds [OF ne sh lu out] by simp
    have populated: "\<forall>r \<in> set ?bs. gpuBindGroup (batchHeap (?v (Suc 0)) r) \<noteq> None"
      using execute_populates [OF ne sh lu out] by simp
    have shader: "js_or (customShader (view_context rend)) (this_shader (?v j)) = Some sh" for j
      using sh executes_shader [of env rend j w sh] by simp
    have "hasColorUniform w sh"
      using lu out by (rule hasColorUniformI)
    then have uniforms: "hasColorUniform (?v j) sh" for j
      using executes_shader [of env rend j w sh] by simp
    have prog: "gpuProgram (shaders (?v j) sh) = gpuProgram (shaders w sh)" for j
      using executes_shader [of env rend j w sh] by simp
    have heap: "batchHeap (?v (Suc j)) = batchHeap (?v (Suc 0))" for j
    proof (induction j)
      case 0
      show ?case by simp
    next
      case (Suc j)
      obtain lu' out' where lu': "localUniforms (shaders (?v (Suc j)) sh) = Some lu'"
          "uColor lu' = Some out'"
        using uniforms [of "Suc j"] by (rule hasColorUniformE)
      have "\<forall>r \<in> set ?bs. gpuBindGroup (batchHeap (?v (Suc j)) r) \<noteq> None"
        using populated unfolding Suc.IH .
      then have "batchHeap (snd (execute env rend (?v (Suc j)))) = batchHeap (?v (Suc j))"
        using execute_cached [OF ne shader lu'] by blast
      then show ?case
        using Suc.IH by simp
    qed
    obtain lu' out' where lu': "localUniforms (shaders (?v (Suc k)) sh) = Some lu'"
        "uColor lu' = Some out'"
      using uniforms [of "Suc k"] by (rule hasColorUniformE)
    have "\<forall>r \<in> set ?bs. gpuBindGroup (batchHeap (?v (Suc k)) r) \<noteq> None"
      using populated unfolding heap [of k] .
    then have "calls (?v (Suc k)) (snd (execute env rend (?v (Suc k)))) =
                 setupCalls env rend ?rd sh lu' out'
                   ((?v (Suc k))\<lparr>state_blendMode := layerBlendMode rend\<rparr>) @
                 concat (map (cachedCalls (?v (Suc k)) sh) ?bs)"
      using execute_cached [OF ne shader lu'] by blast
    then have later: "calls (?v (Suc k)) (?v (Suc (Suc k))) =
                 setupCalls env rend ?rd sh lu' out'
                   ((?v (Suc k))\<lparr>state_blendMode := layerBlendMode rend\<rparr>) @
                 concat (map (cachedCalls (?v (Suc k)) sh) ?bs)"
      by simp
    have none: "filter isConstruction (calls (?v (Suc k)) (?v (Suc (Suc k)))) = []"
      unfolding later by (simp add: setupCalls_not_loop filter_cachedCalls)
    have bound: "filter (boundAt 1) (calls (?v (Suc k)) (?v (Suc (Suc k)))) =
        map (\<lambda>r. SetBindGroup 1 (bindGroup (batchHeap (?v (Suc 0)) r)) (gpuProgram (shaders w sh))) ?bs"
      unfolding later
      by (simp only: filter_append setupCalls_not_loop filter_cachedCalls append_Nil
          heap [of k] prog [of "Suc k"])
    show ?thesis
      using first populated heap [of "Suc k"] none bound by blast
  qed
  have identical: "\<forall>e \<in> set (calls w (?v k)). boundAt 1 e \<longrightarrow>
      (\<exists>r \<in> set ?bs. gpuBindGroup (batchHeap (?v k) r) \<noteq> None \<and>
         (\<exists>p. e = SetBindGroup 1 (bindGroup (batchHeap (?v k) r)) p))"
    by (rule executes_binds_cached)
  show ?thesis
    using kept atmost identical cached by blast
qed

lemma frame_first_run:
  "bindGroup (batchHeap (snd (execute frame_env custom_renderable frame_world)) 10) = Some 305"
  "bindGroup (batchHeap (snd (execute frame_env custom_renderable frame_world)) 11) = Some 309"
  by (simp_all add: execute_def js_or_def execute_setup_def writeTransform_def execute_loop.simps
      execute_batch_def frame_env_def custom_renderable_def frame_world_def init_def blank_world_def
      frame_uniforms_def Let_def)

theorem bind_group_built_once_witness:
  "batches (getGpuContext frame_env (view_context custom_renderable)) \<noteq> [] \<and>
   js_or (customShader (view_context custom_renderable)) (this_shader frame_world) = Some 4 \<and>
   localUniforms (shaders frame_world 4) = Some frame_uniforms \<and>
   uColor frame_uniforms = Some [1, 1, 1, 1] \<and>
   length (filter isGetTextureBatchBindGroup
     (calls frame_world (executes frame_env custom_renderable (Suc 0) frame_world))) = 2 \<and>
   length (filter isGetTextureBatchBindGroup
     (calls frame_world (executes frame_env custom_renderable (Suc (Suc 0)) frame_world))) \<le> 2 \<and>
   filter isConstruction
     (calls (executes frame_env custom_renderable (Suc 0) frame_world)
            (executes frame_env custom_renderable (Suc (Suc 0)) frame_world)) = [] \<and>
   filter (boundAt 1)
     (calls (executes frame_env custom_renderable (Suc 0) frame_world)
            (executes frame_env custom_renderable (Suc (Suc 0)) frame_world)) =
     [SetBindGroup 1 (Some 305) 7, SetBindGroup 1 (Some 309) 7]"
proof -
  have h1: "batches (getGpuContext frame_env (view_context custom_renderable)) \<noteq> []"
    by (simp add: frame_env_def custom_renderable_def)
  have h2: "js_or (customShader (view_context custom_renderable)) (this_shader frame_world) = Some 4"
    by (simp add: custom_renderable_def js_or_def)
  have h3: "localUniforms (shaders frame_world 4) = Some frame_uniforms"
    by (simp add: frame_world_def init_def blank_world_def)
  have h4: "uColor frame_uniforms = Some [1, 1, 1, 1]"
    by (simp add: frame_uniforms_def)
  have bs: "take (instructionSize (getContextRenderData frame_env (view_context custom_renderable)))
              (instructions (getContextRenderData frame_env (view_context custom_renderable))) = [10, 11]"
    by (simp add: frame_env_def)
  have un: "{r \<in> set [10, 11 :: nat]. gpuBindGroup (batchHeap frame_world r) = None} = {10, 11}"
    by (auto simp add: frame_world_def init_def blank_world_def)
  have prog: "gpuProgram (shaders frame_world 4) = 7"
    by (simp add: frame_world_def init_def blank_world_def)
  have twice: "length (filter isGetTextureBatchBindGroup
      (calls frame_world (executes frame_env custom_renderable (Suc (Suc 0)) frame_world))) \<le> 2"
    using bind_group_built_once
      [of frame_world frame_env custom_renderable "Suc (Suc 0)" 4 frame_uniforms "[1, 1, 1, 1]",
       THEN conjunct2, THEN conjunct1]
    unfolding bs un by simp
  have "length (filter isGetTextureBatchBindGroup
      (calls frame_world (executes frame_env custom_renderable (Suc 0) frame_world))) = 2 \<and>
    filter isConstruction
      (calls (executes frame_env custom_renderable (Suc 0) frame_world)
             (executes frame_env custom_renderable (Suc (Suc 0)) frame_world)) = [] \<and>
    filter (boundAt 1)
      (calls (executes frame_env custom_renderable (Suc 0) frame_world)
             (executes frame_env custom_renderable (Suc (Suc 0)) frame_world)) =
      [SetBindGroup 1 (Some 305) 7, SetBindGroup 1 (Some 309) 7]"
    using bind_group_built_once
      [of frame_world frame_env custom_renderable 0 4 frame_uniforms "[1, 1, 1, 1]",
       THEN conjunct2, THEN conjunct2, THEN conjunct2]
      h1 h2 h3 h4 frame_first_run
    unfolding bs un prog by simp
  then show ?thesis
    using h1 h2 h3 h4 twice by blast
qed

subsection \<open>execute after destroy\<close>

text \<open>
  Claim C4 says that after \<open>destroy\<close> every \<open>execute\<close> fails with an error. In the
  concrete frame it does not: after \<open>destroy\<close> has nulled the adaptor's shader,
  \<open>execute\<close> on the context without batches returns normally and changes nothing, and
  \<open>execute\<close> on the context that brings its own shader returns normally after two
  draw calls.
\<close>

theorem execute_after_destroy_counterexample:
  "fst (destroy frame_world) = Returned \<and>
   this_shader (snd (destroy frame_world)) = None \<and>
   execute frame_env empty_renderable (snd (destroy frame_world)) =
     (Returned, snd (destroy frame_world)) \<and>
   fst (execute frame_env custom_renderable (snd (destroy frame_world))) = Returned \<and>
   filter isDrawIndexed (calls (snd (destroy frame_world))
     (snd (execute frame_env custom_renderable (snd (destroy frame_world))))) =
     [DrawIndexed 6 1 60, DrawIndexed 6 1 66]"
  by (simp add: destroy_def execute_def js_or_def execute_setup_def writeTransform_def
      execute_loop.simps execute_batch_def calls_def frame_env_def empty_renderable_def
      custom_renderable_def frame_world_def init_def blank_world_def frame_uniforms_def Let_def)

text \<open>
  Claim C4, amended. \<open>destroy\<close> on an adaptor that has its shader calls the shader's
  \<open>destroy\<close> with the deep flag and nulls the reference. After it, \<open>execute\<close> on a
  paint context that has batches and no custom shader throws a \<open>TypeError\<close> before any
  call on the encoder (the blend mode of the pipe has been written by then); on a paint
  context without batches it returns normally and changes nothing.
\<close>

theorem execute_after_destroy:
  assumes "this_shader w = Some s"
  shows "destroy w = (Returned, w\<lparr>trace := trace w @ [ShaderDestroy s True], this_shader := None\<rparr>) \<and>
         (batches (getGpuContext env (view_context rend)) \<noteq> [] \<and>
          customShader (view_context rend) = None \<longrightarrow>
            execute env rend (snd (destroy w)) =
              (Threw TypeError, (snd (destroy w))\<lparr>state_blendMode := layerBlendMode rend\<rparr>) \<and>
            calls (snd (destroy w)) (snd (execute env rend (snd (destroy w)))) = []) \<and>
         (batches (getGpuContext env (view_context rend)) = [] \<longrightarrow>
            execute env rend (snd (destroy w)) = (Returned, snd (destroy w)))"
  using assms by (simp add: destroy_def execute_def js_or_def calls_def Let_def)

theorem execute_after_destroy_witness:
  "this_shader frame_world = Some 0 \<and>
   batches (getGpuContext frame_env (view_context frame_renderable)) \<noteq> [] \<and>
   customShader (view_context frame_renderable) = None \<and>
   batches (getGpuContext frame_env (view_context empty_renderable)) = [] \<and>
   fst (execute frame_env frame_renderable (snd (destroy frame_world))) = Threw TypeError \<and>
   calls (snd (destroy frame_world))
     (snd (execute frame_env frame_renderable (snd (destroy frame_world)))) = [] \<and>
   fst (execute frame_env empty_renderable (snd (destroy frame_world))) = Returned"
proof -
  have h0: "this_shader frame_world = Some 0"
    by (simp add: frame_world_def init_def)
  have h1: "batches (getGpuContext frame_env (view_context frame_renderable)) \<noteq> []"
    by (simp add: frame_env_def frame_renderable_def)
  have h2: "customShader (view_context frame_renderable) = None"
    by (simp add: frame_renderable_def)
  have h3: "batches (getGpuContext frame_env (view_context empty_renderable)) = []"
    by (simp add: frame_env_def empty_renderable_def)
  have thrown: "execute frame_env frame_renderable (snd (destroy frame_world)) =
        (Threw TypeError, (snd (destroy frame_world))\<lparr>state_blendMode := layerBlendMode frame_renderable\<rparr>) \<and>
      calls (snd (destroy frame_world))
        (snd (execute frame_env frame_renderable (snd (destroy frame_world)))) = []"
    using execute_after_destroy [OF h0, of frame_env frame_renderable] h1 h2 by blast
  have silent: "execute frame_env empty_renderable (snd (destroy frame_world)) =
        (Returned, snd (destroy frame_world))"
    using execute_after_destroy [OF h0, of frame_env empty_renderable] h3 by blast
  show ?thesis
    using h0 h1 h2 h3 thrown silent by (simp add: calls_def)
qed

subsection \<open>The bind groups of the frame\<close>

text \<open>
  What \<open>execute\<close> binds when it gets to the loop: on a paint context that has batches,
  with a shader whose local uniforms have \<open>uColor\<close>, the first five calls of
  \<open>execute\<close> are \<open>setupCalls\<close>: pipeline, geometry, the global uniforms bind group at
  slot 0, one \<open>getUniformBindGroup\<close> on the local uniforms just written, and its result
  at slot 2. Every later call is one the loop body makes (building a batch's bind group,
  binding slot 1, drawing), and among them slot 1 is bound once for each batch among the
  first \<open>instructionSize\<close> entries, in order, with the bind group of that batch. Hence
  in the whole call slot 0 is bound once, \<open>getUniformBindGroup\<close> is called once, and
  slot 2 is bound once.
\<close>

lemma execute_binds_frame_groups_once:
  assumes "batches (getGpuContext env (view_context rend)) \<noteq> []"
    and "js_or (customShader (view_context rend)) (this_shader w) = Some sh"
    and "localUniforms (shaders w sh) = Some lu"
    and "uColor lu = Some out"
  shows "take 5 (calls w (snd (execute env rend w))) =
           setupCalls env rend (getContextRenderData env (view_context rend)) sh lu out
             (w\<lparr>state_blendMode := layerBlendMode rend\<rparr>) \<and>
         (\<forall>e \<in> set (drop 5 (calls w (snd (execute env rend w)))). inLoop e) \<and>
         filter (boundAt 1) (drop 5 (calls w (snd (execute env rend w)))) =
           map (\<lambda>r. SetBindGroup 1 (bindGroup (batchHeap (snd (execute env rend w)) r))
                      (gpuProgram (shaders w sh)))
             (take (instructionSize (getContextRenderData env (view_context rend)))
                (instructions (getContextRenderData env (view_context rend)))) \<and>
         length (filter (boundAt 0) (calls w (snd (execute env rend w)))) = 1 \<and>
         length (filter isGetUniformBindGroup (calls w (snd (execute env rend w)))) = 1 \<and>
         length (filter (boundAt 2) (calls w (snd (execute env rend w)))) = 1"
proof -
  let ?sc = "setupCalls env rend (getContextRenderData env (view_context rend)) sh lu out
               (w\<lparr>state_blendMode := layerBlendMode rend\<rparr>)"
  let ?bound = "map (\<lambda>r. SetBindGroup 1 (bindGroup (batchHeap (snd (execute env rend w)) r))
                          (gpuProgram (shaders w sh)))
                  (take (instructionSize (getContextRenderData env (view_context rend)))
                     (instructions (getContextRenderData env (view_context rend))))"
  obtain ev where ev: "calls w (snd (execute env rend w)) = ?sc @ ev" "\<forall>e \<in> set ev. inLoop e"
      "filter (boundAt 1) ev = ?bound"
    using execute_calls [OF assms] by blast
  have parts: "take 5 (?sc @ ev) = ?sc" "drop 5 (?sc @ ev) = ev"
    by (simp_all add: setupCalls_length)
  have once: "length (filter (boundAt 0) (?sc @ ev)) = 1"
    "length (filter isGetUniformBindGroup (?sc @ ev)) = 1"
    "length (filter (boundAt 2) (?sc @ ev)) = 1"
    using inLoop_filter_frame [OF ev(2)] by (simp_all add: setupCalls_frame)
  show ?thesis
    unfolding ev(1) parts using ev(2) ev(3) once parts(1) by blast
qed

lemma execute_binds_frame_groups_once_example:
  "take 5 (calls frame_world (snd (execute frame_env custom_renderable frame_world))) =
     [SetPipelineFromGeometryProgramAndState 3 7 1,
      SetGeometry 3,
      SetBindGroup 0 (Some 100) 7,
      GetUniformBindGroup (frame_uniforms\<lparr>uTransformMatrix := Some 5\<rparr>) True,
      SetBindGroup 2 (Some 203) 7] \<and>
   filter (boundAt 1) (drop 5 (calls frame_world (snd (execute frame_env custom_renderable frame_world)))) =
     [SetBindGroup 1 (Some 305) 7, SetBindGroup 1 (Some 309) 7]"
proof -
  have h1: "batches (getGpuContext frame_env (view_context custom_renderable)) \<noteq> []"
    by (simp add: frame_env_def custom_renderable_def)
  have h2: "js_or (customShader (view_context custom_renderable)) (this_shader frame_world) = Some 4"
    by (simp add: custom_renderable_def js_or_def)
  have h3: "localUniforms (shaders frame_world 4) = Some frame_uniforms"
    by (simp add: frame_world_def init_def blank_world_def)
  have h4: "uColor frame_uniforms = Some [1, 1, 1, 1]"
    by (simp add: frame_uniforms_def)
  have bs: "take (instructionSize (getContextRenderData frame_env (view_context custom_renderable)))
              (instructions (getContextRenderData frame_env (view_context custom_renderable))) = [10, 11]"
    by (simp add: frame_env_def)
  have sc: "setupCalls frame_env custom_renderable
              (getContextRenderData frame_env (view_context custom_renderable)) 4 frame_uniforms
              [1, 1, 1, 1] (frame_world\<lparr>state_blendMode := layerBlendMode custom_renderable\<rparr>) =
            [SetPipelineFromGeometryProgramAndState 3 7 1,
             SetGeometry 3,
             SetBindGroup 0 (Some 100) 7,
             GetUniformBindGroup (frame_uniforms\<lparr>uTransformMatrix := Some 5\<rparr>) True,
             SetBindGroup 2 (Some 203) 7]"
    by (simp add: setupCalls_def writtenUniforms_def frame_env_def custom_renderable_def
        frame_world_def init_def blank_world_def frame_uniforms_def Let_def)
  have prog: "gpuProgram (shaders frame_world 4) = 7"
    by (simp add: frame_world_def init_def blank_world_def)
  show ?thesis
    using execute_binds_frame_groups_once [OF h1 h2 h3 h4] frame_first_run
    unfolding bs sc prog by simp
qed

text \<open>
  Claim C7 has the global uniforms bound at slot 0 once, the local-uniform bind group
  resolved once and bound at slot 2 once in every non-empty call. With the adaptor's own
  shader this is not what happens: in the concrete frame, after \<open>init\<close>, on the context
  that has batches and no custom shader, \<open>execute\<close> throws and has bound no slot and
  asked for no uniform bind group.
\<close>

theorem execute_own_shader_binds_nothing:
  "frame_world = init 8 7 9 0 blank_world \<and>
   customShader (view_context frame_renderable) = None \<and>
   batches (getGpuContext frame_env (view_context frame_renderable)) = [0, 1] \<and>
   fst (execute frame_env frame_renderable frame_world) = Threw TypeError \<and>
   filter (boundAt 0) (calls frame_world (snd (execute frame_env frame_renderable frame_world))) = [] \<and>
   filter isGetUniformBindGroup
     (calls frame_world (snd (execute frame_env frame_renderable frame_world))) = [] \<and>
   filter (boundAt 2) (calls frame_world (snd (execute frame_env frame_renderable frame_world))) = [] \<and>
   filter (boundAt 1) (calls frame_world (snd (execute frame_env frame_renderable frame_world))) = []"
proof -
  have ne: "batches (getGpuContext frame_env (view_context frame_renderable)) \<noteq> []"
    and no: "customShader (view_context frame_renderable) = None"
    by (simp_all add: frame_env_def frame_renderable_def)
  have "fst (execute frame_env frame_renderable frame_world) = Threw TypeError"
    and "calls frame_world (snd (execute frame_env frame_renderable frame_world)) = []"
    unfolding frame_world_def by (rule execute_own_shader_throws [OF ne no])+
  then show ?thesis
    by (simp add: frame_world_def frame_env_def frame_renderable_def)
qed


section \<open>Properties of Application\<close>

lemma forEach_log:
  "forEach (\<lambda>p v. v\<lparr>app_trace := app_trace v @ [f p]\<rparr>) ps w =
     w\<lparr>app_trace := app_trace w @ map f ps\<rparr>"
  unfolding forEach_def by (induction ps arbitrary: w) simp_all

lemma app_calls_append: "app_trace w' = app_trace w @ ev \<Longrightarrow> app_calls w w' = ev"
  by (simp add: app_calls_def)

lemma Application_init_resolved:
  assumes "autoDetectRenderer (mergedOptions options) = Inr r"
  shows "Application_init autoDetectRenderer this options w =
           (Returned,
            w\<lparr>app_trace := app_trace w @
                  AutoDetectRenderer (mergedOptions options) #
                  map (\<lambda>p. PluginInit p this (mergedOptions options)) (arrays w Application_plugins),
               apps := (apps w)(this := (apps w this)\<lparr>renderer := Some r\<rparr>)\<rparr>)"
  using assms by (simp add: Application_init_def forEach_log Let_def)

lemma Application_init_rejected:
  assumes "autoDetectRenderer (mergedOptions options) = Inl e"
  shows "Application_init autoDetectRenderer this options w =
           (Threw e, w\<lparr>app_trace := app_trace w @ [AutoDetectRenderer (mergedOptions options)]\<rparr>)"
  using assms by (simp add: Application_init_def Let_def)

lemma Application_destroy_trace:
  "app_trace (snd (Application_destroy this options w)) =
     app_trace w @ map (\<lambda>p. PluginDestroy p this) (rev (arrays w Application_plugins)) @
     (case stage (apps w this) of
        None \<Rightarrow> []
      | Some st \<Rightarrow>
          StageDestroy st (orFalse options) #
          (case renderer (apps w this) of
             None \<Rightarrow> []
           | Some rn \<Rightarrow> [RendererDestroy rn (orFalse options)]))"
  by (simp add: Application_destroy_def slice0_def reverse_def forEach_log Let_def
      split: option.split)

lemma Application_destroy_live:
  assumes "stage (apps w this) = Some st" and "renderer (apps w this) = Some rn"
  shows "fst (Application_destroy this options w) = Returned"
    and "stage (apps (snd (Application_destroy this options w)) this) = None"
    and "renderer (apps (snd (Application_destroy this options w)) this) = None"
  using assms
  by (simp_all add: Application_destroy_def slice0_def reverse_def forEach_log Let_def)

lemma Application_destroy_calls:
  "app_calls w (snd (Application_destroy this options w)) =
     map (\<lambda>p. PluginDestroy p this) (rev (arrays w Application_plugins)) @
     (case stage (apps w this) of
        None \<Rightarrow> []
      | Some st \<Rightarrow>
          StageDestroy st (orFalse options) #
          (case renderer (apps w this) of
             None \<Rightarrow> []
           | Some rn \<Rightarrow> [RendererDestroy rn (orFalse options)]))"
  by (rule app_calls_append) (rule Application_destroy_trace)

lemma Application_init_calls:
  assumes "autoDetectRenderer (mergedOptions options) = Inr r"
  shows "app_calls w (snd (Application_init autoDetectRenderer this options w)) =
           AutoDetectRenderer (mergedOptions options) #
           map (\<lambda>p. PluginInit p this (mergedOptions options)) (arrays w Application_plugins)"
  by (rule app_calls_append) (simp add: Application_init_resolved [of autoDetectRenderer options r, OF assms])

lemma filter_plugin_calls:
  "filter isPluginCall (map (\<lambda>p. PluginInit p this opts) ps) = map (\<lambda>p. PluginInit p this opts) ps"
  "filter isPluginCall (map (\<lambda>p. PluginDestroy p this) ps) = map (\<lambda>p. PluginDestroy p this) ps"
  by (induction ps) simp_all

lemma filter_destroy_tail:
  "filter isPluginCall
     (case st of
        None \<Rightarrow> []
      | Some s \<Rightarrow> StageDestroy s d # (case rn of None \<Rightarrow> [] | Some r \<Rightarrow> [RendererDestroy r d])) = []"
  by (simp split: option.split)

text \<open>
  Claim C5. When renderer detection resolves, \<open>init\<close> returns normally and its plugin
  calls are exactly one \<open>init\<close> per entry of \<open>Application._plugins\<close>, in the order of
  the array, each with the same merged options. The plugin calls of \<open>destroy\<close> are
  exactly one \<open>destroy\<close> per entry, in the reverse order of the array. For the plugins
  registered as A, B, C the second list is C, B, A.
\<close>

theorem plugins_init_in_order_destroy_in_reverse:
  "(autoDetectRenderer (mergedOptions options) = Inr r \<longrightarrow>
      fst (Application_init autoDetectRenderer this options w) = Returned \<and>
      filter isPluginCall (app_calls w (snd (Application_init autoDetectRenderer this options w))) =
        map (\<lambda>p. PluginInit p this (mergedOptions options)) (arrays w Application_plugins)) \<and>
   filter isPluginCall (app_calls w (snd (Application_destroy this dopts w))) =
     map (\<lambda>p. PluginDestroy p this) (rev (arrays w Application_plugins))"
proof -
  have "filter isPluginCall (app_calls w (snd (Application_destroy this dopts w))) =
          map (\<lambda>p. PluginDestroy p this) (rev (arrays w Application_plugins))"
    unfolding Application_destroy_calls
    by (simp only: filter_append filter_plugin_calls filter_destroy_tail append_Nil2)
  moreover have "fst (Application_init autoDetectRenderer this options w) = Returned \<and>
        filter isPluginCall (app_calls w (snd (Application_init autoDetectRenderer this options w))) =
          map (\<lambda>p. PluginInit p this (mergedOptions options)) (arrays w Application_plugins)"
    if ok: "autoDetectRenderer (mergedOptions options) = Inr r"
    unfolding Application_init_calls [of autoDetectRenderer options r, OF ok]
    by (simp add: Application_init_resolved [of autoDetectRenderer options r, OF ok] filter_plugin_calls)
  ultimately show ?thesis by blast
qed

theorem plugins_init_in_order_destroy_in_reverse_witness:
  "detect60 (mergedOptions None) = Inr 60 \<and>
   arrays app_fresh Application_plugins = [1, 2, 3] \<and>
   filter isPluginCall (app_calls app_fresh (snd (Application_init detect60 9 None app_fresh))) =
     [PluginInit 1 9 Map.empty, PluginInit 2 9 Map.empty, PluginInit 3 9 Map.empty] \<and>
   filter isPluginCall (app_calls app_live (snd (Application_destroy 9 None app_live))) =
     [PluginDestroy 3 9, PluginDestroy 2 9, PluginDestroy 1 9]"
proof -
  have ok: "detect60 (mergedOptions None) = Inr 60"
    by (simp add: detect60_def)
  have ps: "arrays app_fresh Application_plugins = [1, 2, 3]"
    "arrays app_live Application_plugins = [1, 2, 3]"
    by (simp_all add: app_fresh_def app_live_def Application_plugins_def)
  have opts: "mergedOptions None = Map.empty"
    by (simp add: mergedOptions_def defaultOptions_def)
  show ?thesis
    using plugins_init_in_order_destroy_in_reverse [of detect60 None 60 9 app_fresh None]
      plugins_init_in_order_destroy_in_reverse [of detect60 None 60 9 app_live None]
      ok ps
    unfolding opts by simp
qed

text \<open>
  Claim C6. On an application whose stage and renderer are there, \<open>destroy\<close> returns
  normally and its calls are, in this order: the \<open>destroy\<close> of every plugin in reverse
  order of registration, then the \<open>destroy\<close> of the stage, then the \<open>destroy\<close> of
  the renderer, both with the options given (\<open>false\<close> when omitted). Afterwards the
  \<open>stage\<close> and the \<open>renderer\<close> fields are null.
\<close>

theorem destroy_order:
  assumes "stage (apps w this) = Some st" and "renderer (apps w this) = Some rn"
  shows "fst (Application_destroy this options w) = Returned \<and>
         app_calls w (snd (Application_destroy this options w)) =
           map (\<lambda>p. PluginDestroy p this) (rev (arrays w Application_plugins)) @
           [StageDestroy st (orFalse options), RendererDestroy rn (orFalse options)] \<and>
         stage (apps (snd (Application_destroy this options w)) this) = None \<and>
         renderer (apps (snd (Application_destroy this options w)) this) = None"
  using Application_destroy_live [OF assms, of options] assms
  by (simp add: Application_destroy_calls)

theorem destroy_order_witness:
  "stage (apps app_live 9) = Some 50 \<and> renderer (apps app_live 9) = Some 60 \<and>
   fst (Application_destroy 9 None app_live) = Returned \<and>
   app_calls app_live (snd (Application_destroy 9 None app_live)) =
     [PluginDestroy 3 9, PluginDestroy 2 9, PluginDestroy 1 9,
      StageDestroy 50 (DestroyFlag False), RendererDestroy 60 (DestroyFlag False)] \<and>
   stage (apps (snd (Application_destroy 9 None app_live)) 9) = None \<and>
   renderer (apps (snd (Application_destroy 9 None app_live)) 9) = None"
proof -
  have live: "stage (apps app_live 9) = Some 50" "renderer (apps app_live 9) = Some 60"
    by (simp_all add: app_live_def app_fresh_def)
  have ps: "arrays app_live Application_plugins = [1, 2, 3]"
    by (simp add: app_fresh_def app_live_def Application_plugins_def)
  show ?thesis
    using destroy_order [OF live, of None] live
    unfolding ps by (simp add: orFalse_def)
qed

text \<open>
  Claim C9. Whatever its outcome, \<open>destroy\<close> leaves the array \<open>Application._plugins\<close>
  with the elements it had, in the order they had: the array that is reversed is the new
  one made by \<open>slice\<close>, another object.
\<close>

theorem destroy_keeps_plugin_registry:
  "arrays (snd (Application_destroy this options w)) Application_plugins =
     arrays w Application_plugins \<and>
   next_array (snd (Application_destroy this options w)) \<noteq> Application_plugins \<and>
   arrays (snd (Application_destroy this options w))
     (next_array (snd (Application_destroy this options w))) = rev (arrays w Application_plugins)"
  by (simp add: Application_destroy_def slice0_def reverse_def forEach_log Application_plugins_def
      Let_def split: option.split)

text \<open>
  Claim C10. When renderer detection resolves, \<open>init\<close> calls the \<open>init\<close> of every
  registered plugin with the application as receiver and the merged options as
  argument, and every plugin call \<open>init\<close> makes is of that form. \<open>destroy\<close> calls the
  \<open>destroy\<close> of every registered plugin with the application as receiver, and every
  plugin call it makes is of that form. The merged options hold, for each name, the
  caller's value when there is one and the default otherwise.
\<close>

theorem plugin_calls_scoped_to_application:
  "(autoDetectRenderer (mergedOptions options) = Inr r \<longrightarrow>
      (\<forall>p \<in> set (arrays w Application_plugins).
         PluginInit p this (mergedOptions options)
           \<in> set (app_calls w (snd (Application_init autoDetectRenderer this options w)))) \<and>
      (\<forall>e \<in> set (app_calls w (snd (Application_init autoDetectRenderer this options w))).
         isPluginCall e \<longrightarrow>
           (\<exists>p \<in> set (arrays w Application_plugins). e = PluginInit p this (mergedOptions options)))) \<and>
   (\<forall>p \<in> set (arrays w Application_plugins).
      PluginDestroy p this \<in> set (app_calls w (snd (Application_destroy this dopts w)))) \<and>
   (\<forall>e \<in> set (app_calls w (snd (Application_destroy this dopts w))).
      isPluginCall e \<longrightarrow> (\<exists>p \<in> set (arrays w Application_plugins). e = PluginDestroy p this)) \<and>
   (\<forall>user k. mergedOptions (Some user) k =
      (case user k of Some v \<Rightarrow> Some v | None \<Rightarrow> defaultOptions k)) \<and>
   mergedOptions None = defaultOptions"
proof -
  have init: "(\<forall>p \<in> set (arrays w Application_plugins).
         PluginInit p this (mergedOptions options)
           \<in> set (app_calls w (snd (Application_init autoDetectRenderer this options w)))) \<and>
      (\<forall>e \<in> set (app_calls w (snd (Application_init autoDetectRenderer this options w))).
         isPluginCall e \<longrightarrow>
           (\<exists>p \<in> set (arrays w Application_plugins). e = PluginInit p this (mergedOptions options)))"
    if ok: "autoDetectRenderer (mergedOptions options) = Inr r"
    unfolding Application_init_calls [of autoDetectRenderer options r, OF ok] by auto
  have destroy1: "\<forall>p \<in> set (arrays w Application_plugins).
      PluginDestroy p this \<in> set (app_calls w (snd (Application_destroy this dopts w)))"
    unfolding Application_destroy_calls by simp
  have destroy2: "\<forall>e \<in> set (app_calls w (snd (Application_destroy this dopts w))).
      isPluginCall e \<longrightarrow> (\<exists>p \<in> set (arrays w Application_plugins). e = PluginDestroy p this)"
    unfolding Application_destroy_calls by (auto split: option.splits)
  have merged: "\<forall>user k. mergedOptions (Some user) k =
      (case user k of Some v \<Rightarrow> Some v | None \<Rightarrow> defaultOptions k)"
    by (simp add: mergedOptions_def map_add_def split: option.split)
  have none: "mergedOptions None = defaultOptions"
    by (simp add: mergedOptions_def)
  show ?thesis
    using init destroy1 destroy2 merged none by blast
qed

theorem plugin_calls_scoped_to_application_witness:
  "detect60 (mergedOptions (Some [''antialias'' \<mapsto> 1])) = Inr 60 \<and>
   2 \<in> set (arrays app_fresh Application_plugins) \<and>
   PluginInit 2 9 (mergedOptions (Some [''antialias'' \<mapsto> 1]))
     \<in> set (app_calls app_fresh (snd (Application_init detect60 9 (Some [''antialias'' \<mapsto> 1]) app_fresh))) \<and>
   PluginDestroy 2 9 \<in> set (app_calls app_live (snd (Application_destroy 9 None app_live))) \<and>
   mergedOptions (Some [''antialias'' \<mapsto> 1]) ''antialias'' = Some 1"
proof -
  have ok: "detect60 (mergedOptions (Some [''antialias'' \<mapsto> 1])) = Inr 60"
    by (simp add: detect60_def)
  have ps: "2 \<in> set (arrays app_fresh Application_plugins)"
    "2 \<in> set (arrays app_live Application_plugins)"
    by (simp_all add: app_fresh_def app_live_def Application_plugins_def)
  have "PluginInit 2 9 (mergedOptions (Some [''antialias'' \<mapsto> 1]))
     \<in> set (app_calls app_fresh (snd (Application_init detect60 9 (Some [''antialias'' \<mapsto> 1]) app_fresh)))"
    using plugin_calls_scoped_to_application
      [of detect60 "Some [''antialias'' \<mapsto> 1]" 60 app_fresh 9 None] ok ps(1)
    by blast
  moreover have "PluginDestroy 2 9 \<in> set (app_calls app_live (snd (Application_destroy 9 None app_live)))"
    using plugin_calls_scoped_to_application
      [of detect60 "Some [''antialias'' \<mapsto> 1]" 60 app_live 9 None] ps(2)
    by blast
  moreover have "mergedOptions (Some [''antialias'' \<mapsto> 1]) ''antialias'' = Some 1"
    using plugin_calls_scoped_to_application
      [of detect60 "Some [''antialias'' \<mapsto> 1]" 60 app_live 9 None]
    by simp
  ultimately show ?thesis
    using ok ps(1) by blast
qed

end
